theory Spec2Isabelle
  imports Main
begin

section \<open>Strings and buffers of the JavaScript platform\<close>

text \<open>
  The program is one Node.js script. Its strings are modelled as \<open>string\<close> (a list of
  8-bit characters: a text is taken as its UTF-8 bytes), and a \<open>Buffer\<close> is a list of
  bytes as well. Numbers are unbounded integers: the rounding of a double above \<open>2^53\<close>
  is outside the model.
\<close>

type_synonym bytes = "char list"

definition hexdigit :: "nat \<Rightarrow> char" where
  "hexdigit n = (if n < 10 then char_of (48 + n) else char_of (87 + n))"

definition unhex :: "char \<Rightarrow> nat option" where
  "unhex c =
     (let n = (of_char c :: nat) in
      if 48 \<le> n \<and> n \<le> 57 then Some (n - 48)
      else if 97 \<le> n \<and> n \<le> 102 then Some (n - 87)
      else if 65 \<le> n \<and> n \<le> 70 then Some (n - 55)
      else None)"

text \<open>\<open>buf.toString("hex")\<close>: two lower-case digits for every byte.\<close>

fun toHex :: "bytes \<Rightarrow> string" where
  "toHex [] = []"
| "toHex (b # bs) = hexdigit (of_char b div 16) # hexdigit (of_char b mod 16) # toHex bs"

text \<open>
  \<open>Buffer.from(s, "hex")\<close>: Node decodes pairs of hexadecimal digits and stops, without
  an exception, at the first pair that is not one; a trailing single character is dropped.
\<close>

fun fromHex :: "string \<Rightarrow> bytes" where
  "fromHex (a # b # rest) =
     (case unhex a of
        None \<Rightarrow> []
      | Some x \<Rightarrow> (case unhex b of
                    None \<Rightarrow> []
                  | Some y \<Rightarrow> char_of (16 * x + y) # fromHex rest))"
| "fromHex [a] = []"
| "fromHex [] = []"

text \<open>\<open>s.split(d)\<close> for a one-character separator: never the empty array.\<close>

fun split_on :: "char \<Rightarrow> string \<Rightarrow> string list" where
  "split_on d [] = [[]]"
| "split_on d (c # cs) =
     (if c = d then [] # split_on d cs
      else (case split_on d cs of
              [] \<Rightarrow> [[c]]
            | f # fs \<Rightarrow> (c # f) # fs))"

section \<open>The crypto engine\<close>

text \<open>
  \<open>crypto.scryptSync\<close>, \<open>crypto.createCipheriv\<close> and \<open>crypto.createDecipheriv\<close>
  (with \<open>update\<close> and \<open>final\<close>) are Node's bindings to OpenSSL, not code of this
  program: they are parameters of the model.
  \<^item> \<open>createCipheriv L key iv text\<close> is the ciphertext, as bytes, that
    \<open>createCipheriv("aes-256-cbc", key, iv)\<close> produces for \<open>text\<close> with
    \<open>update(text, "utf8", _)\<close> and \<open>final(_)\<close>; \<open>encrypt\<close> writes it in hex.
  \<^item> \<open>createDecipheriv L key iv hex\<close> is the string that
    \<open>createDecipheriv("aes-256-cbc", key, iv)\<close> returns from
    \<open>update(hex, "hex", "utf8")\<close> and \<open>final("utf8")\<close>, and \<open>None\<close> where one of the
    three throws (an initialisation vector or key of the wrong length, a hex text of odd
    length, a ciphertext that is not a whole number of blocks, a failed padding check).
  The two \<open>crypto.randomBytes(16)\<close> of \<open>encrypt\<close> are its arguments \<open>salt\<close> and \<open>iv\<close>.
\<close>

record crypto =
  scryptSync :: "string \<Rightarrow> bytes \<Rightarrow> nat \<Rightarrow> bytes"
  createCipheriv :: "bytes \<Rightarrow> bytes \<Rightarrow> string \<Rightarrow> bytes"
  createDecipheriv :: "bytes \<Rightarrow> bytes \<Rightarrow> string \<Rightarrow> string option"

definition encrypt :: "crypto \<Rightarrow> bytes \<Rightarrow> bytes \<Rightarrow> string \<Rightarrow> string \<Rightarrow> string" where
  "encrypt L salt iv text password =
     (let key = scryptSync L password salt 32;
          encrypted = toHex (createCipheriv L key iv text)
      in toHex salt @ '':'' @ toHex iv @ '':'' @ encrypted)"

text \<open>
  \<open>decrypt\<close> returns \<open>null\<close> (here \<open>None\<close>) from its \<open>catch\<close>. Its argument is
  \<open>vault.data.secrets[id]\<close>, which is \<open>undefined\<close> (here \<open>None\<close>) for a missing key:
  \<open>undefined.split\<close> throws inside the \<open>try\<close>. The destructuring
  \<open>[saltHex, ivHex, encryptedText] = ...\<close> takes the first three fields and ignores any
  further one; with fewer than three, \<open>Buffer.from(undefined, "hex")\<close> or
  \<open>decipher.update(undefined, ...)\<close> throws.
\<close>

definition decrypt :: "crypto \<Rightarrow> string option \<Rightarrow> string \<Rightarrow> string option" where
  "decrypt L encryptedData password =
     (case encryptedData of
        None \<Rightarrow> None
      | Some s \<Rightarrow>
          (case split_on CHR '':'' s of
             saltHex # ivHex # encryptedText # _ \<Rightarrow>
               (let salt = fromHex saltHex;
                    iv = fromHex ivHex;
                    key = scryptSync L password salt 32
                in createDecipheriv L key iv encryptedText)
           | _ \<Rightarrow> None))"

text \<open>
  What the program needs of the library: a 16-byte initialisation vector and the 32-byte
  key that \<open>scryptSync(_, _, 32)\<close> returns are accepted, and deciphering the hex text of
  a ciphertext under the key and vector of the enciphering gives the plaintext back.
\<close>

definition crypto_contract :: "crypto \<Rightarrow> bool" where
  "crypto_contract L \<longleftrightarrow>
     (\<forall>pw salt. length (scryptSync L pw salt 32) = 32) \<and>
     (\<forall>key iv m. length key = 32 \<and> length iv = 16 \<longrightarrow>
        createDecipheriv L key iv (toHex (createCipheriv L key iv m)) = Some m)"

subsection \<open>A small instance of the library\<close>

text \<open>
  An instance of the contract that can be evaluated: the key is a byte sum, the cipher
  pads to blocks of 16 bytes (PKCS#7, as AES-CBC does) and shifts every byte by the key
  and the vector; deciphering checks the lengths and the padding. It stands in for
  OpenSSL where a statement is evaluated at a concrete input.
\<close>

definition byte_sum :: "bytes \<Rightarrow> nat" where
  "byte_sum bs = sum_list (map of_char bs)"

definition toy_scrypt :: "string \<Rightarrow> bytes \<Rightarrow> nat \<Rightarrow> bytes" where
  "toy_scrypt pw salt n = replicate n (char_of (byte_sum (pw @ salt)))"

definition pkcs7_pad :: "bytes \<Rightarrow> bytes" where
  "pkcs7_pad m = (let n = 16 - length m mod 16 in m @ replicate n (char_of n))"

definition pkcs7_unpad :: "bytes \<Rightarrow> bytes option" where
  "pkcs7_unpad c =
     (if c = [] \<or> length c mod 16 \<noteq> 0 then None
      else (let n = (of_char (last c) :: nat) in
            if 1 \<le> n \<and> n \<le> 16 \<and> drop (length c - n) c = replicate n (last c)
            then Some (take (length c - n) c)
            else None))"

definition shift_byte :: "nat \<Rightarrow> char \<Rightarrow> char" where
  "shift_byte k c = char_of (of_char c + k)"

definition unshift_byte :: "nat \<Rightarrow> char \<Rightarrow> char" where
  "unshift_byte k c = char_of (of_char c + (256 - k mod 256))"

definition toy_cipher :: "bytes \<Rightarrow> bytes \<Rightarrow> string \<Rightarrow> bytes" where
  "toy_cipher key iv m = map (shift_byte (byte_sum (key @ iv))) (pkcs7_pad m)"

definition toy_decipher :: "bytes \<Rightarrow> bytes \<Rightarrow> string \<Rightarrow> string option" where
  "toy_decipher key iv hex =
     (if length key \<noteq> 32 \<or> length iv \<noteq> 16 \<or> odd (length hex) then None
      else pkcs7_unpad (map (unshift_byte (byte_sum (key @ iv))) (fromHex hex)))"

definition toy_crypto :: crypto where
  "toy_crypto = \<lparr> scryptSync = toy_scrypt, createCipheriv = toy_cipher,
                  createDecipheriv = toy_decipher \<rparr>"

definition salt_a :: bytes where
  "salt_a = replicate 16 (CHR ''s'')"

definition salt_b :: bytes where
  "salt_b = replicate 16 (CHR ''t'')"

definition iv_a :: bytes where
  "iv_a = replicate 16 (CHR ''v'')"

section \<open>More of the platform: trimming, numbers as keys, \<open>parseInt\<close>\<close>

text \<open>
  The white space of the language (\<open>WhiteSpace\<close> and \<open>LineTerminator\<close>), which
  \<open>String.prototype.trim\<close> strips and \<open>parseInt\<close> skips, in UTF-8: the one-byte
  characters tab, line feed, vertical tab, form feed, carriage return and space; U+00A0
  (\<open>C2 A0\<close>); and the three-byte characters U+1680 (\<open>E1 9A 80\<close>), U+2000 to U+200A
  (\<open>E2 80 80\<close> to \<open>E2 80 8A\<close>), U+2028 and U+2029 (\<open>E2 80 A8\<close>, \<open>E2 80 A9\<close>),
  U+202F (\<open>E2 80 AF\<close>), U+205F (\<open>E2 81 9F\<close>), U+3000 (\<open>E3 80 80\<close>) and
  U+FEFF (\<open>EF BB BF\<close>).
\<close>

definition is_space1 :: "char \<Rightarrow> bool" where
  "is_space1 a \<longleftrightarrow> (of_char a :: nat) \<in> {9, 10, 11, 12, 13, 32}"

definition is_space2 :: "char \<Rightarrow> char \<Rightarrow> bool" where
  "is_space2 a b \<longleftrightarrow> (of_char a :: nat) = 194 \<and> (of_char b :: nat) = 160"

definition is_space3 :: "char \<Rightarrow> char \<Rightarrow> char \<Rightarrow> bool" where
  "is_space3 a b c \<longleftrightarrow>
     (let x = (of_char a :: nat); y = (of_char b :: nat); z = (of_char c :: nat) in
      (x = 225 \<and> y = 154 \<and> z = 128) \<or>
      (x = 226 \<and> y = 128 \<and> ((128 \<le> z \<and> z \<le> 138) \<or> z = 168 \<or> z = 169 \<or> z = 175)) \<or>
      (x = 226 \<and> y = 129 \<and> z = 159) \<or>
      (x = 227 \<and> y = 128 \<and> z = 128) \<or>
      (x = 239 \<and> y = 187 \<and> z = 191))"

text \<open>\<open>s.trimStart()\<close>, also the skipping of leading white space in \<open>parseInt\<close>.\<close>

fun trimStart :: "string \<Rightarrow> string" where
  "trimStart (a # b # c # s) =
     (if is_space1 a then trimStart (b # c # s)
      else if is_space2 a b then trimStart (c # s)
      else if is_space3 a b c then trimStart s
      else a # b # c # s)"
| "trimStart [a, b] =
     (if is_space1 a then trimStart [b]
      else if is_space2 a b then []
      else [a, b])"
| "trimStart [a] = (if is_space1 a then [] else [a])"
| "trimStart [] = []"

text \<open>
  The same from the end, on the reversed string: the bytes of a character come last
  byte first.
\<close>

fun trimStart_rev :: "string \<Rightarrow> string" where
  "trimStart_rev (a # b # c # s) =
     (if is_space1 a then trimStart_rev (b # c # s)
      else if is_space2 b a then trimStart_rev (c # s)
      else if is_space3 c b a then trimStart_rev s
      else a # b # c # s)"
| "trimStart_rev [a, b] =
     (if is_space1 a then trimStart_rev [b]
      else if is_space2 b a then []
      else [a, b])"
| "trimStart_rev [a] = (if is_space1 a then [] else [a])"
| "trimStart_rev [] = []"

definition trimEnd :: "string \<Rightarrow> string" where
  "trimEnd s = rev (trimStart_rev (rev s))"

definition trim :: "string \<Rightarrow> string" where
  "trim s = trimEnd (trimStart s)"

definition lower_char :: "char \<Rightarrow> char" where
  "lower_char c =
     (let n = (of_char c :: nat) in if 65 \<le> n \<and> n \<le> 90 then char_of (n + 32) else c)"

definition toLowerCase :: "string \<Rightarrow> string" where
  "toLowerCase s = map lower_char s"

text \<open>\<open>xs.join(sep)\<close>.\<close>

fun join :: "string \<Rightarrow> string list \<Rightarrow> string" where
  "join sep [] = []"
| "join sep [x] = x"
| "join sep (x # y # ys) = x @ sep @ join sep (y # ys)"

text \<open>
  The decimal digits of a natural number, and \<open>String(n)\<close> for an integer \<open>n\<close>: the
  property key under which \<open>vault.data.secrets[id] = ...\<close> stores when \<open>id\<close> is a
  number.
\<close>

fun digits10 :: "nat \<Rightarrow> string" where
  "digits10 n =
     (if n < 10 then [char_of (48 + n)]
      else digits10 (n div 10) @ [char_of (48 + n mod 10)])"

definition number_key :: "int \<Rightarrow> string" where
  "number_key i = (if i < 0 then CHR ''-'' # digits10 (nat (- i)) else digits10 (nat i))"

definition is_digit :: "char \<Rightarrow> bool" where
  "is_digit c \<longleftrightarrow> 48 \<le> (of_char c :: nat) \<and> (of_char c :: nat) \<le> 57"

definition digit_value :: "nat \<Rightarrow> char \<Rightarrow> nat option" where
  "digit_value radix c =
     (if radix = 16 then unhex c
      else if is_digit c then Some (of_char c - 48) else None)"

definition number_of_digits :: "nat \<Rightarrow> string \<Rightarrow> nat" where
  "number_of_digits radix ds = foldl (\<lambda>acc c. acc * radix + the (digit_value radix c)) 0 ds"

text \<open>
  \<open>parseInt(s)\<close> with no radix: leading white space is skipped, then an optional sign,
  then \<open>0x\<close> or \<open>0X\<close> selects radix 16; the longest run of digits of the radix is
  read and what follows is ignored. With no digit the result is \<open>NaN\<close>, here \<open>None\<close>:
  \<open>NaN\<close> is \<open>===\<close> to no number.
\<close>

definition parseInt :: "string \<Rightarrow> int option" where
  "parseInt s =
     (let s1 = trimStart s;
          neg = (s1 \<noteq> [] \<and> hd s1 = CHR ''-'');
          s2 = (if s1 \<noteq> [] \<and> (hd s1 = CHR ''-'' \<or> hd s1 = CHR ''+'') then tl s1 else s1);
          hex = (take 2 s2 = ''0x'' \<or> take 2 s2 = ''0X'');
          radix = (if hex then 16 else 10);
          s3 = (if hex then drop 2 s2 else s2);
          ds = takeWhile (\<lambda>c. digit_value radix c \<noteq> None) s3
      in if ds = [] then None
         else Some ((if neg then - 1 else 1) * int (number_of_digits radix ds)))"

section \<open>The entry store and the secret vault\<close>

record entry =
  id_entry :: int
  content :: string
  tags :: "string list"
  timestamp :: string
  encrypted :: bool
  usageCount :: nat

text \<open>
  The two loaded collections: \<open>db.data.entries\<close> and \<open>vault.data.secrets\<close> (an object
  used as a dictionary from property keys to ciphertext blobs). Every command works on
  them in memory and writes them back with \<open>db.write()\<close> and \<open>vault.write()\<close>, so the
  store a command returns is the persisted one.
\<close>

record store =
  entries :: "entry list"
  secrets :: "string \<rightharpoonup> string"

text \<open>
  The outcomes of a command other than success: the three messages it prints with
  \<open>console.error\<close>, and the two exceptions that end it, \<open>SyntaxError\<close> of
  \<open>new RegExp\<close> and \<open>TypeError\<close>.
\<close>

datatype error = NoContent | NotFound | WrongPassword | SyntaxError | TypeError

text \<open>
  \<open>t\<close> is the \<open>Translator\<close> object that \<open>translate\<close> returns (\<open>translate.js\<close>): its
  messages are read with \<open>t.get(key)\<close>. It is not a function, so every call \<open>t(key)\<close>
  throws \<open>TypeError: t is not a function\<close>; no command catches it.
\<close>

fun t_call :: "string \<Rightarrow> error + string" where
  "t_call key = Inl TypeError"

definition sentinel :: string where
  "sentinel = ''*** ENCRYPTED ***''"

definition getNextId :: "entry list \<Rightarrow> int" where
  "getNextId es = (if length es = 0 then 100 else Max (set (map id_entry es)) + 1)"

text \<open>
  \<open>entries.find((e) => e.id === parseInt(id))\<close> gives the first entry of that id, and the
  commands then assign to fields of that object: \<open>update_first\<close> is the assignment.
\<close>

definition has_id :: "string \<Rightarrow> entry \<Rightarrow> bool" where
  "has_id idstr e \<longleftrightarrow> Some (id_entry e) = parseInt idstr"

fun update_first :: "(entry \<Rightarrow> bool) \<Rightarrow> (entry \<Rightarrow> entry) \<Rightarrow> entry list \<Rightarrow> entry list" where
  "update_first p f [] = []"
| "update_first p f (e # es) = (if p e then f e # es else e # update_first p f es)"

subsection \<open>add\<close>

text \<open>
  The inputs of \<open>add\<close>: the optional argument, the options (\<open>--tags\<close> defaults to the
  empty string; \<open>add_clipboard\<close> is what \<open>clipboardy.read()\<close> returns when
  \<open>--clipboard\<close> is set), the answer of the password prompt, the two random buffers of
  \<open>encrypt\<close> and the clock.
\<close>

record add_input =
  add_text :: "string option"
  add_tags :: string
  add_clipboard :: "string option"
  add_encrypted :: bool
  add_password :: string
  add_salt :: bytes
  add_iv :: bytes
  add_now :: string

text \<open>
  \<open>return console.error(chalk.red(t("errors.noContent")))\<close>: the call of \<open>t\<close> throws
  before anything is printed.
\<close>

definition no_content :: "store \<Rightarrow> (error + int) \<times> store" where
  "no_content st =
     (case t_call ''errors.noContent'' of
        Inl err \<Rightarrow> (Inl err, st)
      | Inr message \<Rightarrow> (Inl NoContent, st))"

definition add_action :: "crypto \<Rightarrow> add_input \<Rightarrow> store \<Rightarrow> (error + int) \<times> store" where
  "add_action L inp st =
     (case (case add_clipboard inp of Some c \<Rightarrow> Some c | None \<Rightarrow> add_text inp) of
        None \<Rightarrow> no_content st
      | Some c \<Rightarrow>
          if c = [] \<or> trim c = [] then no_content st
          else
            (let i = getNextId (entries st);
                 isEncrypted = add_encrypted inp;
                 vault = (if add_encrypted inp
                          then (secrets st)(number_key i \<mapsto>
                                 encrypt L (add_salt inp) (add_iv inp) (trim c) (add_password inp))
                          else secrets st);
                 e = \<lparr> id_entry = i,
                       content = (if isEncrypted then sentinel else trim c),
                       tags = (if add_tags inp \<noteq> []
                               then map trim (split_on CHR '','' (add_tags inp)) else []),
                       timestamp = add_now inp,
                       encrypted = isEncrypted,
                       usageCount = 0 \<rparr>
             in (Inr i, \<lparr> entries = entries st @ [e], secrets = vault \<rparr>)))"

subsection \<open>get\<close>

text \<open>
  For an encrypted entry the question of the password prompt is built with
  \<open>message: t("prompts.enterPassword")\<close>, which throws before the prompt is shown; the
  code after it is kept as it is written. \<open>if (!decrypted)\<close> holds for \<open>null\<close> and for
  the empty string. The vault is read under the argument as typed (\<open>secrets[id]\<close>), the
  entry under \<open>parseInt(id)\<close>. The result is the text shown (\<open>--clipboard\<close> copies the
  same text and changes no store).
\<close>

definition touch :: "entry \<Rightarrow> entry" where
  "touch e = e\<lparr> usageCount := usageCount e + 1 \<rparr>"

definition get_action :: "crypto \<Rightarrow> string \<Rightarrow> string \<Rightarrow> store \<Rightarrow> (error + string) \<times> store" where
  "get_action L idstr password st =
     (case find (has_id idstr) (entries st) of
        None \<Rightarrow> (Inl NotFound, st)
      | Some e \<Rightarrow>
          (case (if encrypted e
                 then (case t_call ''prompts.enterPassword'' of
                         Inl err \<Rightarrow> Inl err
                       | Inr message \<Rightarrow>
                           (case decrypt L (secrets st idstr) password of
                              None \<Rightarrow> Inl WrongPassword
                            | Some decrypted \<Rightarrow>
                                if decrypted = [] then Inl WrongPassword else Inr decrypted))
                 else Inr (content e)) of
             Inl err \<Rightarrow> (Inl err, st)
           | Inr displayContent \<Rightarrow>
               (Inr displayContent,
                st\<lparr> entries := update_first (has_id idstr) touch (entries st) \<rparr>)))"

subsection \<open>edit\<close>

text \<open>
  An \<open>input\<close> prompt of inquirer answers its default when nothing is typed. The inputs
  of \<open>edit\<close> are what is typed at its prompts and the random buffers of \<open>encrypt\<close>.
  The message for an id that is not found and the questions for the new content, the new
  tags and the new password are written \<open>t("...")\<close>, and the questions are built before
  the prompt is shown: the call of \<open>t\<close> throws, and only the answer to a wrong
  password (\<open>t.get("errors.wrongPassword")\<close>) is reached. The code after the calls is
  kept as it is written.
\<close>

definition prompt_input :: "string \<Rightarrow> string \<Rightarrow> string" where
  "prompt_input typed dflt = (if typed = [] then dflt else typed)"

record edit_input =
  edit_password :: string
  edit_content :: string
  edit_tags :: string
  edit_newPass :: string
  edit_salt :: bytes
  edit_iv :: bytes

definition edit_action :: "crypto \<Rightarrow> string \<Rightarrow> edit_input \<Rightarrow> store \<Rightarrow> (error + unit) \<times> store" where
  "edit_action L idstr inp st =
     (case find (has_id idstr) (entries st) of
        None \<Rightarrow>
          (case t_call ''errors.notFound'' of
             Inl err \<Rightarrow> (Inl err, st)
           | Inr message \<Rightarrow> (Inl NotFound, st))
      | Some e \<Rightarrow>
          (case (if encrypted e
                 then (case decrypt L (secrets st idstr) (edit_password inp) of
                         None \<Rightarrow> Inl WrongPassword
                       | Some d \<Rightarrow> if d = [] then Inl WrongPassword else Inr d)
                 else Inr (content e)) of
             Inl err \<Rightarrow> (Inl err, st)
           | Inr currentContent \<Rightarrow>
               (case t_call ''prompts.newContent'' of
                  Inl err \<Rightarrow> (Inl err, st)
                | Inr message1 \<Rightarrow>
                    (case t_call ''prompts.newTags'' of
                       Inl err \<Rightarrow> (Inl err, st)
                     | Inr message2 \<Rightarrow>
                         (let answers_content = prompt_input (edit_content inp) currentContent;
                              answers_tags = prompt_input (edit_tags inp) (join '', '' (tags e));
                              newTags = map trim (split_on CHR '','' answers_tags)
                          in if encrypted e
                             then (case t_call ''prompts.encryptionPassword'' of
                                     Inl err \<Rightarrow> (Inl err, st)
                                   | Inr message3 \<Rightarrow>
                                       (Inr (),
                                        \<lparr> entries = update_first (has_id idstr)
                                                      (\<lambda>x. x\<lparr> tags := newTags \<rparr>) (entries st),
                                          secrets = (secrets st)(idstr \<mapsto>
                                                      encrypt L (edit_salt inp) (edit_iv inp)
                                                        answers_content (edit_newPass inp)) \<rparr>))
                             else (Inr (),
                                   \<lparr> entries = update_first (has_id idstr)
                                                 (\<lambda>x. x\<lparr> content := answers_content,
                                                         tags := newTags \<rparr>) (entries st),
                                     secrets = secrets st \<rparr>))))))"

subsection \<open>delete\<close>

definition delete_action :: "string \<Rightarrow> store \<Rightarrow> (error + unit) \<times> store" where
  "delete_action idstr st =
     (Inr (),
      \<lparr> entries = filter (\<lambda>e. Some (id_entry e) \<noteq> parseInt idstr) (entries st),
        secrets = (secrets st)(idstr := None) \<rparr>)"

subsection \<open>tags\<close>

text \<open>
  \<open>tagMap\<close> is an object used as a dictionary: here the list of its own properties in
  the order of their creation. \<open>tagMap[t] = (tagMap[t] || 0) + 1\<close> adds one to the
  count of an own property, or creates it with the count 1.
\<close>

fun bump :: "string \<Rightarrow> (string \<times> nat) list \<Rightarrow> (string \<times> nat) list" where
  "bump t [] = [(t, 1)]"
| "bump t ((k, c) # m) = (if k = t then (k, c + 1) # m else (k, c) # bump t m)"

definition tagMap_of :: "entry list \<Rightarrow> (string \<times> nat) list" where
  "tagMap_of es = fold (\<lambda>e m. fold bump (tags e) m) es []"

text \<open>
  \<open>tagMap\<close> is created by \<open>{}\<close>, so it inherits the properties of
  \<open>Object.prototype\<close>. For a tag of one of these names \<open>tagMap[t]\<close> reads the
  inherited value, which is truthy, and what is stored is a string and not a count (for
  \<open>__proto__\<close> nothing is stored): the command is modelled only where no tag is such a
  name.
\<close>

definition object_prototype_names :: "string list" where
  "object_prototype_names =
     [''constructor'', ''__defineGetter__'', ''__defineSetter__'', ''hasOwnProperty'',
      ''__lookupGetter__'', ''__lookupSetter__'', ''isPrototypeOf'', ''propertyIsEnumerable'',
      ''toString'', ''valueOf'', ''__proto__'', ''toLocaleString'']"

text \<open>
  \<open>Object.entries\<close> lists the own properties in the order of the language: first the
  keys that are array indices (the canonical decimal form of an integer below
  \<open>2^32 - 1\<close>) in ascending numeric order, then the other keys in the order of their
  creation.
\<close>

definition array_index :: "string \<Rightarrow> nat option" where
  "array_index k =
     (if k \<noteq> [] \<and> list_all is_digit k \<and> (k = ''0'' \<or> hd k \<noteq> CHR ''0'') \<and>
         number_of_digits 10 k < 4294967295
      then Some (number_of_digits 10 k) else None)"

definition Object_entries :: "(string \<times> nat) list \<Rightarrow> (string \<times> nat) list" where
  "Object_entries m =
     sort_key (\<lambda>(k, c). the (array_index k)) (filter (\<lambda>(k, c). array_index k \<noteq> None) m) @
     filter (\<lambda>(k, c). array_index k = None) m"

text \<open>
  \<open>.sort((a, b) => b[1] - a[1])\<close>: \<open>Array.prototype.sort\<close> is stable, so this is the
  stable sort by descending count.
\<close>

definition sort_by_count :: "(string \<times> nat) list \<Rightarrow> (string \<times> nat) list" where
  "sort_by_count rows = sort_key (\<lambda>(k, c). - int c) rows"

definition tags_action :: "entry list \<Rightarrow> (string \<times> nat) list option" where
  "tags_action es =
     (if list_ex (\<lambda>t. t \<in> set object_prototype_names) (concat (map tags es)) then None
      else Some (sort_by_count (Object_entries (tagMap_of es))))"

text \<open>The tags in the order in which they are first met, for stating the order of the rows.\<close>

definition first_seen :: "string list \<Rightarrow> string list" where
  "first_seen ts = fold (\<lambda>t seen. if t \<in> set seen then seen else seen @ [t]) ts []"

subsection \<open>find\<close>

text \<open>
  The regular expressions of the language and the functions of \<open>date-fns\<close> are the
  platform's: they are parameters of the model, over any type \<open>'d\<close> of calendar days.
  \<^item> \<open>new_RegExp L src\<close> is \<open>new RegExp(src, "i")\<close>, given by its method \<open>test\<close>;
    \<open>None\<close> where the constructor throws \<open>SyntaxError\<close>.
  \<^item> \<open>parse_date L s fmt\<close> is \<open>startOfDay(parse(s, fmt, new Date()))\<close>, \<open>None\<close> where
    \<open>parse\<close> returns an invalid date (\<open>isNaN(d)\<close>).
  \<^item> \<open>subDays L d n\<close> is \<open>subDays(d, n)\<close> on a start of day.
  \<^item> \<open>day_of L ts\<close> is the local calendar day of \<open>new Date(ts)\<close>, \<open>None\<close> for an
    invalid date: \<open>isSameDay(new Date(e.timestamp), filterDate)\<close> is
    \<open>day_of L (timestamp e) = Some filterDate\<close>.
\<close>

record 'd library =
  new_RegExp :: "string \<Rightarrow> (string \<Rightarrow> bool) option"
  parse_date :: "string \<Rightarrow> string \<Rightarrow> 'd option"
  subDays :: "'d \<Rightarrow> nat \<Rightarrow> 'd"
  day_of :: "string \<Rightarrow> 'd option"

definition todayTerms :: "string list" where
  "todayTerms = [''today'', ''heute'', ''oggi'', ''hoy'', ''aujourd'hui'']"

definition yesterdayTerms :: "string list" where
  "yesterdayTerms = [''yesterday'', ''gestern'', ''ieri'', ''ayer'', ''hier'']"

text \<open>The loop over the formats: the first one that parses wins.\<close>

fun try_formats :: "'d library \<Rightarrow> string \<Rightarrow> string list \<Rightarrow> 'd option" where
  "try_formats L dateStr [] = None"
| "try_formats L dateStr (fmt # fmts) =
     (case parse_date L dateStr fmt of
        Some d \<Rightarrow> Some d
      | None \<Rightarrow> try_formats L dateStr fmts)"

text \<open>\<open>today\<close> is \<open>startOfDay(new Date())\<close>, the current local day.\<close>

definition parseSearchDate :: "'d library \<Rightarrow> 'd \<Rightarrow> string \<Rightarrow> 'd option" where
  "parseSearchDate L today dateStr =
     (let input = toLowerCase dateStr in
      if input \<in> set todayTerms then Some today
      else if input \<in> set yesterdayTerms then Some (subDays L today 1)
      else try_formats L dateStr [''yyyy-MM-dd'', ''dd.MM.yyyy''])"

text \<open>\<open>query.replace(/\*/g, ".*")\<close>.\<close>

definition replace_star :: "string \<Rightarrow> string" where
  "replace_star query = concat (map (\<lambda>c. if c = CHR ''*'' then ''.*'' else [c]) query)"

text \<open>
  The command: \<open>date\<close> is \<open>options.date\<close> (\<open>None\<close> without \<open>--date\<close>; the empty string
  is falsy), and \<open>filterDate\<close> is \<open>null\<close> both without a date option and for a date
  that \<open>parseSearchDate\<close> does not recognise. An exception of \<open>new RegExp\<close> is not
  caught: the command ends with it. When no entry matches, the message is read with
  \<open>t("commands.find.noMatches")\<close>, which throws.
\<close>

definition find_action ::
  "'d library \<Rightarrow> 'd \<Rightarrow> string \<Rightarrow> string option \<Rightarrow> entry list \<Rightarrow> error + entry list" where
  "find_action L today query date es =
     (let filterDate = (case date of
                          None \<Rightarrow> None
                        | Some d \<Rightarrow> if d = [] then None else parseSearchDate L today d)
      in case new_RegExp L (replace_star query) of
           None \<Rightarrow> Inl SyntaxError
         | Some regex \<Rightarrow>
             (let results =
                    filter (\<lambda>e. (regex (content e) \<or> list_ex regex (tags e)) \<and>
                                (case filterDate of
                                   None \<Rightarrow> True
                                 | Some fd \<Rightarrow> day_of L (timestamp e) = Some fd)) es
              in if length results = 0
                 then (case t_call ''commands.find.noMatches'' of
                         Inl err \<Rightarrow> Inl err
                       | Inr message \<Rightarrow> Inr [])
                 else Inr results))"

section \<open>Sequences of commands, the invariant, sample data\<close>

text \<open>
  A run of \<open>add\<close> commands, one after the other on the store the last one wrote;
  the result lists the ids assigned (a command that ends without content assigns none).
\<close>

fun add_all :: "crypto \<Rightarrow> add_input list \<Rightarrow> store \<Rightarrow> int list \<times> store" where
  "add_all L [] st = ([], st)"
| "add_all L (inp # inps) st =
     (case add_action L inp st of
        (Inl err, st') \<Rightarrow> add_all L inps st'
      | (Inr i, st') \<Rightarrow> (i # fst (add_all L inps st'), snd (add_all L inps st')))"

text \<open>
  The invariant of the entry store: an entry flagged as encrypted holds the sentinel as
  its content.
\<close>

definition encrypted_inv :: "store \<Rightarrow> bool" where
  "encrypted_inv st \<longleftrightarrow> (\<forall>e \<in> set (entries st). encrypted e \<longrightarrow> content e = sentinel)"

text \<open>Sample inputs and stores, for evaluating statements at concrete inputs.\<close>

definition empty_store :: store where
  "empty_store = \<lparr> entries = [], secrets = Map.empty \<rparr>"

definition secret_input :: add_input where
  "secret_input =
     \<lparr> add_text = Some '' secret '', add_tags = ''work, security'', add_clipboard = None,
       add_encrypted = True, add_password = ''pw'', add_salt = salt_a, add_iv = iv_a,
       add_now = ''2026-02-10T09:00:00.000Z'' \<rparr>"

definition note_input :: add_input where
  "note_input =
     \<lparr> add_text = Some ''React hook'', add_tags = ''react,hooks'', add_clipboard = None,
       add_encrypted = False, add_password = [], add_salt = salt_b, add_iv = iv_a,
       add_now = ''2026-02-11T10:30:00.000Z'' \<rparr>"

definition blank_input :: add_input where
  "blank_input = note_input \<lparr> add_text := Some ''   '' \<rparr>"

definition secret_entry :: entry where
  "secret_entry =
     \<lparr> id_entry = 100, content = sentinel, tags = [''work'', ''security''],
       timestamp = ''2026-02-10T09:00:00.000Z'', encrypted = True, usageCount = 0 \<rparr>"

definition note_entry :: entry where
  "note_entry =
     \<lparr> id_entry = 101, content = ''React hook'', tags = [''react'', ''hooks''],
       timestamp = ''2026-02-11T10:30:00.000Z'', encrypted = False, usageCount = 0 \<rparr>"

definition secret_store :: store where
  "secret_store =
     \<lparr> entries = [secret_entry, note_entry],
       secrets = [''100'' \<mapsto> encrypt toy_crypto salt_a iv_a ''secret'' ''pw''] \<rparr>"

definition tagged :: "string list \<Rightarrow> entry" where
  "tagged ts = \<lparr> id_entry = 100, content = ''x'', tags = ts, timestamp = ''2026-02-10T09:00:00.000Z'',
                 encrypted = False, usageCount = 0 \<rparr>"

definition edit_sample :: edit_input where
  "edit_sample =
     \<lparr> edit_password = ''pw'', edit_content = ''new secret'', edit_tags = [],
       edit_newPass = ''pw2'', edit_salt = salt_b, edit_iv = iv_a \<rparr>"

subsection \<open>A small instance of the platform for \<open>find\<close>\<close>

text \<open>
  Regular expressions made of letters, digits, spaces and \<open>.*\<close> only (any other
  source is refused), matched anywhere in the subject without regard to case; days as
  year, month and day, read from the two formats with all digits present, and the day of
  a timestamp read off its first ten characters (the time zone UTC).
\<close>

datatype tok = Lit char | AnyStar

definition is_plain :: "char \<Rightarrow> bool" where
  "is_plain c \<longleftrightarrow> is_digit c \<or> c = CHR '' '' \<or>
     (97 \<le> (of_char (lower_char c) :: nat) \<and> (of_char (lower_char c) :: nat) \<le> 122)"

fun toy_tokens :: "string \<Rightarrow> tok list option" where
  "toy_tokens [] = Some []"
| "toy_tokens (c # cs) =
     (if c = CHR ''.'' then
        (case cs of
           [] \<Rightarrow> None
         | d # rest \<Rightarrow> if d = CHR ''*'' then map_option (Cons AnyStar) (toy_tokens rest) else None)
      else if is_plain c then map_option (Cons (Lit c)) (toy_tokens cs)
      else None)"

fun match_here :: "tok list \<Rightarrow> string \<Rightarrow> bool" where
  "match_here [] s = True"
| "match_here (Lit c # ts) [] = False"
| "match_here (Lit c # ts) (x # xs) = (lower_char x = lower_char c \<and> match_here ts xs)"
| "match_here (AnyStar # ts) [] = match_here ts []"
| "match_here (AnyStar # ts) (x # xs) =
     (match_here ts (x # xs) \<or> (x \<noteq> CHR 0x0A \<and> match_here (AnyStar # ts) xs))"

fun match_anywhere :: "tok list \<Rightarrow> string \<Rightarrow> bool" where
  "match_anywhere ts [] = match_here ts []"
| "match_anywhere ts (x # xs) = (match_here ts (x # xs) \<or> match_anywhere ts xs)"

definition toy_RegExp :: "string \<Rightarrow> (string \<Rightarrow> bool) option" where
  "toy_RegExp src = map_option match_anywhere (toy_tokens src)"

type_synonym ymd = "nat \<times> nat \<times> nat"

definition leap_year :: "nat \<Rightarrow> bool" where
  "leap_year y \<longleftrightarrow> (y mod 4 = 0 \<and> y mod 100 \<noteq> 0) \<or> y mod 400 = 0"

definition days_in_month :: "nat \<Rightarrow> nat \<Rightarrow> nat" where
  "days_in_month y m =
     (if m = 2 then (if leap_year y then 29 else 28)
      else if m \<in> {4, 6, 9, 11} then 30 else 31)"

definition toy_ymd :: "string \<Rightarrow> string \<Rightarrow> string \<Rightarrow> ymd option" where
  "toy_ymd ys ms ds =
     (if length ys = 4 \<and> length ms = 2 \<and> length ds = 2 \<and> list_all is_digit (ys @ ms @ ds)
      then (let y = number_of_digits 10 ys; m = number_of_digits 10 ms; d = number_of_digits 10 ds
            in if 1 \<le> y \<and> 1 \<le> m \<and> m \<le> 12 \<and> 1 \<le> d \<and> d \<le> days_in_month y m
               then Some (y, m, d) else None)
      else None)"

definition toy_parse :: "string \<Rightarrow> string \<Rightarrow> ymd option" where
  "toy_parse s fmt =
     (if fmt = ''yyyy-MM-dd'' then
        (case split_on CHR ''-'' s of [ys, ms, ds] \<Rightarrow> toy_ymd ys ms ds | _ \<Rightarrow> None)
      else if fmt = ''dd.MM.yyyy'' then
        (case split_on CHR ''.'' s of [ds, ms, ys] \<Rightarrow> toy_ymd ys ms ds | _ \<Rightarrow> None)
      else None)"

definition prev_day :: "ymd \<Rightarrow> ymd" where
  "prev_day t =
     (case t of (y, m, d) \<Rightarrow>
        if 1 < d then (y, m, d - 1)
        else if 1 < m then (y, m - 1, days_in_month y (m - 1))
        else (y - 1, 12, 31))"

definition toy_subDays :: "ymd \<Rightarrow> nat \<Rightarrow> ymd" where
  "toy_subDays t n = (prev_day ^^ n) t"

definition toy_day_of :: "string \<Rightarrow> ymd option" where
  "toy_day_of ts = toy_parse (take 10 ts) ''yyyy-MM-dd''"

definition today_a :: ymd where
  "today_a = (2026, 2, 11)"

definition toy_library :: "ymd library" where
  "toy_library = \<lparr> new_RegExp = toy_RegExp, parse_date = toy_parse, subDays = toy_subDays,
                   day_of = toy_day_of \<rparr>"

section \<open>Facts about the codecs\<close>

lemma unhex_hexdigit: "n < 16 \<Longrightarrow> unhex (hexdigit n) = Some n"
  by (auto simp: unhex_def hexdigit_def Let_def)

lemma hexdigit_not_colon: "n < 16 \<Longrightarrow> hexdigit n \<noteq> CHR '':''"
proof
  assume n: "n < 16" and eq: "hexdigit n = CHR '':''"
  have "(of_char (hexdigit n) :: nat) = 58"
    by (simp add: eq)
  with n show False
    by (auto simp: hexdigit_def split: if_splits)
qed

lemma byte_split: "char_of (16 * ((of_char b :: nat) div 16) + of_char b mod 16) = b"
  by simp

lemma byte_hi: "(of_char b :: nat) div 16 < 16"
  by (simp add: less_mult_imp_div_less)

lemma fromHex_toHex: "fromHex (toHex bs) = bs"
proof (induction bs)
  case Nil
  show ?case by simp
next
  case (Cons b bs)
  have hi: "unhex (hexdigit (of_char b div 16)) = Some (of_char b div 16)"
    by (rule unhex_hexdigit) (rule byte_hi)
  have lo: "unhex (hexdigit (of_char b mod 16)) = Some (of_char b mod 16)"
    by (rule unhex_hexdigit) simp
  show ?case
    using Cons byte_split [of b] by (simp add: hi lo del: mult_div_mod_eq)
qed

lemma colon_notin_toHex: "CHR '':'' \<notin> set (toHex bs)"
proof (induction bs)
  case Nil
  show ?case by simp
next
  case (Cons b bs)
  have "hexdigit (of_char b div 16) \<noteq> CHR '':''"
    by (rule hexdigit_not_colon) (rule byte_hi)
  moreover have "hexdigit (of_char b mod 16) \<noteq> CHR '':''"
    by (rule hexdigit_not_colon) simp
  ultimately show ?case
    using Cons by auto
qed

lemma toHex_inj: "toHex a = toHex b \<Longrightarrow> a = b"
  by (metis fromHex_toHex)

lemma split_on_no_sep: "d \<notin> set a \<Longrightarrow> split_on d a = [a]"
  by (induction a) auto

lemma split_on_append: "d \<notin> set a \<Longrightarrow> split_on d (a @ d # rest) = a # split_on d rest"
  by (induction a) auto

section \<open>Facts about the crypto engine\<close>

lemma split_on_blob:
  "split_on CHR '':'' (toHex a @ '':'' @ toHex b @ '':'' @ toHex c @ r) =
     toHex a # toHex b # split_on CHR '':'' (toHex c @ r)"
  using split_on_append [of "CHR '':''" "toHex a" "toHex b @ '':'' @ toHex c @ r"]
    split_on_append [of "CHR '':''" "toHex b" "toHex c @ r"]
  by (simp add: colon_notin_toHex)

lemma split_on_encrypt:
  "split_on CHR '':'' (encrypt L salt iv txt pw) =
     [toHex salt, toHex iv, toHex (createCipheriv L (scryptSync L pw salt 32) iv txt)]"
  using split_on_blob [of salt iv "createCipheriv L (scryptSync L pw salt 32) iv txt" "[]"]
  by (simp add: encrypt_def Let_def split_on_no_sep colon_notin_toHex)

lemma split_on_encrypt_extra:
  "split_on CHR '':'' (encrypt L salt iv txt pw @ CHR '':'' # junk) =
     toHex salt # toHex iv # toHex (createCipheriv L (scryptSync L pw salt 32) iv txt)
       # split_on CHR '':'' junk"
  using split_on_blob [of salt iv "createCipheriv L (scryptSync L pw salt 32) iv txt"
      "CHR '':'' # junk"]
  by (simp add: encrypt_def Let_def split_on_append colon_notin_toHex)

lemma decrypt_fields:
  "split_on CHR '':'' s = a # b # c # rest \<Longrightarrow>
   decrypt L (Some s) pw = createDecipheriv L (scryptSync L pw (fromHex a) 32) (fromHex b) c"
  by (simp add: decrypt_def Let_def)

lemma decrypt_few_fields:
  "length (split_on CHR '':'' s) < 3 \<Longrightarrow> decrypt L (Some s) pw = None"
  by (auto simp: decrypt_def split: list.splits)

lemma decrypt_encrypt:
  assumes "crypto_contract L" "length iv = 16"
  shows "decrypt L (Some (encrypt L salt iv txt pw)) pw = Some txt"
proof -
  have key: "length (scryptSync L pw salt 32) = 32"
    using assms(1) by (simp add: crypto_contract_def)
  have "createDecipheriv L (scryptSync L pw salt 32) iv
          (toHex (createCipheriv L (scryptSync L pw salt 32) iv txt)) = Some txt"
    using assms key by (simp add: crypto_contract_def)
  then show ?thesis
    by (simp add: decrypt_fields [OF split_on_encrypt] fromHex_toHex)
qed

lemma decrypt_encrypt_extra:
  assumes "crypto_contract L" "length iv = 16"
  shows "decrypt L (Some (encrypt L salt iv txt pw @ CHR '':'' # junk)) pw = Some txt"
proof -
  have key: "length (scryptSync L pw salt 32) = 32"
    using assms(1) by (simp add: crypto_contract_def)
  have "createDecipheriv L (scryptSync L pw salt 32) iv
          (toHex (createCipheriv L (scryptSync L pw salt 32) iv txt)) = Some txt"
    using assms key by (simp add: crypto_contract_def)
  then show ?thesis
    by (simp add: decrypt_fields [OF split_on_encrypt_extra] fromHex_toHex)
qed

subsection \<open>The small instance satisfies the contract\<close>

lemma unshift_shift: "unshift_byte k (shift_byte k c) = c"
proof -
  define x where "x = (of_char c :: nat)"
  define r where "r = k mod 256"
  have lt: "x < 256" "r < 256"
    by (simp_all add: x_def r_def)
  have "((x + k) mod 256 + (256 - r)) mod 256 = ((x + r) mod 256 + (256 - r)) mod 256"
    by (simp add: r_def mod_add_right_eq)
  also have "\<dots> = (x + r + (256 - r)) mod 256"
    by (simp add: mod_add_left_eq)
  also have "x + r + (256 - r) = x + 256"
    using lt by simp
  also have "(x + 256) mod 256 = x"
    using lt by simp
  finally have "char_of ((x + k) mod 256 + (256 - r)) = char_of x"
    by (metis char_of_mod_256)
  then show ?thesis
    by (simp add: unshift_byte_def shift_byte_def x_def r_def)
qed

lemma pkcs7_unpad_pad: "pkcs7_unpad (pkcs7_pad m) = Some m"
proof -
  define n where "n = 16 - length m mod 16"
  have n: "1 \<le> n" "n \<le> 16"
    by (simp_all add: n_def)
  have len: "(length m + n) mod 16 = 0"
    unfolding n_def by presburger
  have last: "last (m @ replicate n (char_of n)) = char_of n"
    using n by (cases n) simp_all
  have val: "(of_char (char_of n :: char) :: nat) = n"
    using n by simp
  show ?thesis
    using n len by (simp add: pkcs7_unpad_def pkcs7_pad_def Let_def n_def [symmetric] last val)
qed

lemma length_toHex: "length (toHex bs) = 2 * length bs"
  by (induction bs) simp_all

lemma toy_contract: "crypto_contract toy_crypto"
  by (simp add: crypto_contract_def toy_crypto_def toy_scrypt_def toy_decipher_def
      toy_cipher_def o_def unshift_shift pkcs7_unpad_pad fromHex_toHex length_toHex)

lemma byte_sum_replicate: "byte_sum (replicate n c) = n * of_char c"
  by (induction n) (simp_all add: byte_sum_def)

lemma byte_sum_Nil: "byte_sum [] = 0"
  by (simp add: byte_sum_def)

lemma byte_sum_Cons: "byte_sum (c # cs) = of_char c + byte_sum cs"
  by (simp add: byte_sum_def)

lemma byte_sum_append: "byte_sum (a @ b) = byte_sum a + byte_sum b"
  by (simp add: byte_sum_def)

lemma pkcs7_unpad_bad_last:
  assumes "c \<noteq> []" "(of_char (last c) :: nat) = 0 \<or> 16 < (of_char (last c) :: nat)"
  shows "pkcs7_unpad c = None"
  using assms by (auto simp: pkcs7_unpad_def Let_def)

lemma last_pkcs7_pad: "last (pkcs7_pad m) = char_of (16 - length m mod 16)"
proof -
  have "16 - length m mod 16 \<noteq> 0" by simp
  then show ?thesis
    by (simp add: pkcs7_pad_def Let_def del: replicate_eq_replicate)
qed

lemma pkcs7_pad_nonempty: "pkcs7_pad m \<noteq> []"
  by (simp add: pkcs7_pad_def Let_def)

lemma toy_decipher_wrong_key:
  assumes "(16 - length m mod 16 + byte_sum (key @ iv) + (256 - byte_sum (key' @ iv) mod 256)) mod 256 = v"
    and "v = 0 \<or> 16 < v"
  shows "toy_decipher key' iv (toHex (toy_cipher key iv m)) = None"
proof (cases "length key' \<noteq> 32 \<or> length iv \<noteq> 16")
  case True
  then show ?thesis by (auto simp: toy_decipher_def)
next
  case False
  define n where "n = 16 - length m mod 16"
  define S where "S = byte_sum (key @ iv)"
  define r where "r = 256 - byte_sum (key' @ iv) mod 256"
  let ?c = "map (unshift_byte (byte_sum (key' @ iv))) (map (shift_byte S) (pkcs7_pad m))"
  have ne: "?c \<noteq> []"
    by (simp add: pkcs7_pad_nonempty)
  have "last ?c = unshift_byte (byte_sum (key' @ iv)) (shift_byte S (char_of n))"
    by (simp add: last_map pkcs7_pad_nonempty last_pkcs7_pad n_def)
  then have "(of_char (last ?c) :: nat) = ((n mod 256 + S) mod 256 + r) mod 256"
    by (simp add: unshift_byte_def shift_byte_def r_def)
  also have "\<dots> = (n + S + r) mod 256"
    by (simp add: mod_add_left_eq)
  also have "\<dots> = v"
    using assms(1) by (simp add: n_def S_def r_def)
  finally have "(of_char (last ?c) :: nat) = v" .
  with assms(2) have "pkcs7_unpad ?c = None"
    using ne by (intro pkcs7_unpad_bad_last) auto
  with False show ?thesis
    by (simp add: toy_decipher_def toy_cipher_def S_def fromHex_toHex length_toHex)
qed

lemma toy_wrong_password:
  "decrypt toy_crypto (Some (encrypt toy_crypto salt_a iv_a ''secret'' ''pw'')) ''pX'' = None"
proof -
  have "toy_decipher (toy_scrypt ''pX'' salt_a 32) iv_a
          (toHex (toy_cipher (toy_scrypt ''pw'' salt_a 32) iv_a ''secret'')) = None"
    by (rule toy_decipher_wrong_key [where v = 234])
      (simp_all add: toy_scrypt_def salt_a_def iv_a_def byte_sum_append byte_sum_replicate
        byte_sum_Cons byte_sum_Nil)
  then show ?thesis
    by (simp add: decrypt_fields [OF split_on_encrypt] fromHex_toHex toy_crypto_def)
qed

section \<open>Claims about the crypto engine\<close>

text \<open>
  C9 (encryption freshness). The blob carries the salt and the initialisation vector in
  its first two fields, so two calls of \<open>encrypt\<close> on the same text and password whose
  sampled pairs of salt and vector differ return different blobs, whatever the cipher
  computes; the first two fields decode to the sampled salt and vector.
\<close>

theorem encrypt_fresh:
  assumes "(s1, v1) \<noteq> (s2, v2)"
  shows "encrypt L s1 v1 txt pw \<noteq> encrypt L s2 v2 txt pw \<and>
         map fromHex (take 2 (split_on CHR '':'' (encrypt L s1 v1 txt pw))) = [s1, v1]"
proof -
  have "encrypt L s1 v1 txt pw \<noteq> encrypt L s2 v2 txt pw"
  proof
    assume "encrypt L s1 v1 txt pw = encrypt L s2 v2 txt pw"
    then have "split_on CHR '':'' (encrypt L s1 v1 txt pw) =
               split_on CHR '':'' (encrypt L s2 v2 txt pw)"
      by simp
    then have "toHex s1 = toHex s2" "toHex v1 = toHex v2"
      by (simp_all add: split_on_encrypt)
    then have "s1 = s2" "v1 = v2"
      by (auto dest: toHex_inj)
    with assms show False by simp
  qed
  then show ?thesis
    by (simp add: split_on_encrypt fromHex_toHex)
qed

theorem encrypt_fresh_witness:
  "(salt_a, iv_a) \<noteq> (salt_b, iv_a) \<and>
   encrypt toy_crypto salt_a iv_a ''secret'' ''pw'' \<noteq> encrypt toy_crypto salt_b iv_a ''secret'' ''pw'' \<and>
   map fromHex (take 2 (split_on CHR '':'' (encrypt toy_crypto salt_a iv_a ''secret'' ''pw'')))
     = [salt_a, iv_a]"
proof -
  have ne: "(salt_a, iv_a) \<noteq> (salt_b, iv_a)"
    by (simp add: salt_a_def salt_b_def)
  show ?thesis
    using ne encrypt_fresh [OF ne, of toy_crypto "''secret''" "''pw''"] by simp
qed

text \<open>
  C7 (decrypt: totality and failure), as the code has it. \<open>decrypt\<close> returns a string or
  \<open>null\<close> for every stored value and password and never throws. It is \<open>null\<close> for a
  missing vault record and for a blob of fewer than three fields; with three fields or
  more it is what the library's decipher gives on the third field under the key and
  vector of the first two, hex-decoded as \<open>Buffer.from\<close> does (without a check):
  \<open>null\<close> exactly where the library throws (lengths, padding check). Fields after the
  third are ignored, so a blob of \<open>encrypt\<close> with a fourth field appended still
  decrypts to the plaintext.
\<close>

theorem decrypt_total:
  "(decrypt L d pw = None \<or> (\<exists>t. decrypt L d pw = Some t)) \<and>
   decrypt L None pw = None \<and>
   (length (split_on CHR '':'' s) < 3 \<longrightarrow> decrypt L (Some s) pw = None) \<and>
   (\<forall>a b c rest. split_on CHR '':'' s = a # b # c # rest \<longrightarrow>
      decrypt L (Some s) pw =
        createDecipheriv L (scryptSync L pw (fromHex a) 32) (fromHex b) c) \<and>
   (crypto_contract L \<and> length iv = 16 \<longrightarrow>
      decrypt L (Some (encrypt L salt iv txt pw @ CHR '':'' # junk)) pw = Some txt)"
proof -
  have "decrypt L d pw = None \<or> (\<exists>t. decrypt L d pw = Some t)"
    by (cases "decrypt L d pw") simp_all
  moreover have "decrypt L None pw = None"
    by (simp add: decrypt_def)
  ultimately show ?thesis
    by (simp add: decrypt_few_fields decrypt_fields decrypt_encrypt_extra)
qed

theorem decrypt_total_witness:
  "length (split_on CHR '':'' ''7373:7676'') < 3 \<and>
   decrypt toy_crypto (Some ''7373:7676'') ''pw'' = None \<and>
   split_on CHR '':'' ''73:76:b3:00'' = [''73'', ''76'', ''b3'', ''00''] \<and>
   decrypt toy_crypto (Some ''73:76:b3:00'') ''pw'' =
     createDecipheriv toy_crypto (scryptSync toy_crypto ''pw'' (fromHex ''73'') 32)
       (fromHex ''76'') ''b3'' \<and>
   crypto_contract toy_crypto \<and> length iv_a = 16 \<and>
   decrypt toy_crypto (Some (encrypt toy_crypto salt_a iv_a ''secret'' ''pw'' @ '':00'')) ''pw''
     = Some ''secret''"
proof -
  have len: "length iv_a = 16"
    by (simp add: iv_a_def)
  have few: "length (split_on CHR '':'' ''7373:7676'') < 3"
    by simp
  have four: "split_on CHR '':'' ''73:76:b3:00'' = [''73'', ''76'', ''b3'', ''00'']"
    by simp
  show ?thesis
    using decrypt_total [of toy_crypto "Some ''7373:7676''" "''pw''" "''7373:7676''" iv_a
        salt_a "''secret''" "''00''"]
      decrypt_total [of toy_crypto "Some ''73:76:b3:00''" "''pw''" "''73:76:b3:00''" iv_a
        salt_a "''secret''" "''00''"]
      toy_contract len few four
    by simp
qed

text \<open>
  The claim as stated fails: a blob that splits into four fields, not three, is
  decrypted.
\<close>

theorem decrypt_four_fields_counterexample:
  "length (split_on CHR '':'' (encrypt toy_crypto salt_a iv_a ''secret'' ''pw'' @ '':00'')) = 4 \<and>
   decrypt toy_crypto (Some (encrypt toy_crypto salt_a iv_a ''secret'' ''pw'' @ '':00'')) ''pw''
     = Some ''secret''"
proof -
  have len: "length iv_a = 16"
    by (simp add: iv_a_def)
  have "split_on CHR '':'' ''00'' = [''00'']"
    by simp
  then have "length (split_on CHR '':'' (encrypt toy_crypto salt_a iv_a ''secret'' ''pw'' @ '':00'')) = 4"
    using split_on_encrypt_extra [of toy_crypto salt_a iv_a "''secret''" "''pw''" "''00''"]
    by simp
  then show ?thesis
    using decrypt_encrypt_extra [OF toy_contract len, of salt_a "''secret''" "''pw''" "''00''"]
    by simp
qed

section \<open>Facts about the store\<close>

lemma getNextId_gt: "e \<in> set es \<Longrightarrow> id_entry e < getNextId es"
proof -
  assume e: "e \<in> set es"
  then have "id_entry e \<le> Max (set (map id_entry es))"
    by (intro Max_ge) auto
  with e show ?thesis
    by (auto simp: getNextId_def)
qed

lemma getNextId_snoc:
  assumes "id_entry e = getNextId es"
  shows "getNextId (es @ [e]) = getNextId es + 1"
proof -
  have "Max (set (map id_entry (es @ [e]))) = id_entry e"
  proof (rule Max_eqI)
    fix y assume "y \<in> set (map id_entry (es @ [e]))"
    then show "y \<le> id_entry e"
      using assms by (auto dest!: getNextId_gt)
  qed auto
  then show ?thesis
    using assms by (simp add: getNextId_def)
qed

lemma add_action_cases:
  "add_action L inp st = (Inl TypeError, st) \<or>
   (\<exists>e. add_action L inp st =
          (Inr (getNextId (entries st)),
           \<lparr> entries = entries st @ [e],
             secrets = (if add_encrypted inp
                        then (secrets st)(number_key (getNextId (entries st)) \<mapsto>
                               encrypt L (add_salt inp) (add_iv inp)
                                 (trim (the (case add_clipboard inp of Some c \<Rightarrow> Some c | None \<Rightarrow> add_text inp)))
                                 (add_password inp))
                        else secrets st) \<rparr>) \<and>
        id_entry e = getNextId (entries st) \<and> usageCount e = 0 \<and>
        encrypted e = add_encrypted inp \<and>
        (encrypted e \<longrightarrow> content e = sentinel))"
  by (auto simp: add_action_def no_content_def Let_def split: option.splits)

lemma consecutive_Cons:
  "(x::int) # map (\<lambda>k. x + 1 + int k) [0..<n] = map (\<lambda>k. x + int k) [0..<Suc n]"
proof (rule nth_equalityI)
  fix i assume "i < length (x # map (\<lambda>k. x + 1 + int k) [0..<n])"
  then show "(x # map (\<lambda>k. x + 1 + int k) [0..<n]) ! i = map (\<lambda>k. x + int k) [0..<Suc n] ! i"
    by (cases i) (simp_all del: upt_Suc)
qed simp

lemma add_all_ids:
  "fst (add_all L inps st) =
     map (\<lambda>k. getNextId (entries st) + int k) [0..<length (fst (add_all L inps st))]"
proof (induction inps arbitrary: st)
  case Nil
  show ?case by simp
next
  case (Cons inp inps)
  consider (fail) "add_action L inp st = (Inl TypeError, st)"
    | (ok) e where "add_action L inp st =
          (Inr (getNextId (entries st)), \<lparr> entries = entries st @ [e],
             secrets = (if add_encrypted inp
                        then (secrets st)(number_key (getNextId (entries st)) \<mapsto>
                               encrypt L (add_salt inp) (add_iv inp)
                                 (trim (the (case add_clipboard inp of Some c \<Rightarrow> Some c | None \<Rightarrow> add_text inp)))
                                 (add_password inp))
                        else secrets st) \<rparr>)"
        "id_entry e = getNextId (entries st)"
    using add_action_cases [of L inp st] by blast
  then show ?case
  proof cases
    case fail
    then show ?thesis
      using Cons.IH [of st] by simp
  next
    case ok
    let ?st' = "snd (add_action L inp st)"
    have next': "getNextId (entries ?st') = getNextId (entries st) + 1"
      using ok by (simp add: getNextId_snoc)
    have eq: "fst (add_all L (inp # inps) st) = getNextId (entries st) # fst (add_all L inps ?st')"
      using ok(1) by simp
    have "fst (add_all L inps ?st') =
            map (\<lambda>k. getNextId (entries st) + 1 + int k) [0..<length (fst (add_all L inps ?st'))]"
      using Cons.IH [of ?st'] next' by simp
    then have "getNextId (entries st) # fst (add_all L inps ?st') =
            map (\<lambda>k. getNextId (entries st) + int k) [0..<Suc (length (fst (add_all L inps ?st')))]"
      using consecutive_Cons [of "getNextId (entries st)" "length (fst (add_all L inps ?st'))"]
      by simp
    then show ?thesis
      using eq by simp
  qed
qed

lemma trim_samples: "trim '' secret '' = ''secret''" "trim ''React hook'' = ''React hook''"
  "trim ''   '' = []" "trim ''work'' = ''work''" "trim '' security'' = ''security''"
  "trim ''react'' = ''react''" "trim ''hooks'' = ''hooks''"
  by (simp_all add: trim_def trimEnd_def is_space1_def is_space2_def is_space3_def)

text \<open>
  White space outside ASCII is stripped as well: a no-break space (\<open>C2 A0\<close>) in front,
  a line separator (\<open>E2 80 A8\<close>) behind; a text of one byte-order mark is blank.
\<close>

lemma trim_unicode_samples:
  "trim ([char_of (194::nat), char_of (160::nat)] @ ''a b'' @
         [char_of (226::nat), char_of (128::nat), char_of (168::nat)]) = ''a b''"
  "trim [char_of (239::nat), char_of (187::nat), char_of (191::nat)] = []"
  "trimStart ([char_of (194::nat), char_of (160::nat)] @ ''100'') = ''100''"
  by (simp_all add: trim_def trimEnd_def is_space1_def is_space2_def is_space3_def)

lemma number_key_samples: "number_key 100 = ''100''" "number_key 101 = ''101''"
  by (simp_all add: number_key_def char_of_eq_iff)

lemma parseInt_samples: "parseInt ''100'' = Some 100" "parseInt ''0100'' = Some 100"
   "parseInt ''105'' = Some 105" "parseInt ''101'' = Some 101"
  by (simp_all add: parseInt_def is_space1_def is_space2_def is_space3_def digit_value_def is_digit_def unhex_def number_of_digits_def Let_def)

lemma add_secret: "add_action toy_crypto secret_input empty_store = (Inr 100, \<lparr> entries = [secret_entry], secrets = [''100'' \<mapsto> encrypt toy_crypto salt_a iv_a ''secret'' ''pw''] \<rparr>)"
  by (simp add: add_action_def secret_input_def empty_store_def trim_samples getNextId_def number_key_samples secret_entry_def)

lemma add_note: "add_action toy_crypto note_input \<lparr> entries = [secret_entry], secrets = [''100'' \<mapsto> encrypt toy_crypto salt_a iv_a ''secret'' ''pw''] \<rparr> = (Inr 101, secret_store)"
  by (simp add: add_action_def note_input_def trim_samples getNextId_def number_key_samples secret_entry_def secret_store_def note_entry_def)

lemma add_blank: "add_action L blank_input st = (Inl TypeError, st)"
  by (simp add: add_action_def no_content_def blank_input_def note_input_def trim_samples)

lemma add_all_sample: "add_all toy_crypto [secret_input, blank_input, note_input] empty_store = ([100, 101], secret_store)"
  by (simp add: add_secret add_blank add_note)

lemma add_all_entries:
  "map id_entry (entries (snd (add_all L inps st))) = map id_entry (entries st) @ fst (add_all L inps st)"
proof (induction inps arbitrary: st)
  case Nil
  show ?case by simp
next
  case (Cons inp inps)
  show ?case
    using add_action_cases [of L inp st] Cons.IH [of "snd (add_action L inp st)"]
    by (elim disjE exE conjE) simp_all
qed

lemma sorted_consecutive: "sorted_wrt (<) (map (\<lambda>k. (x::int) + int k) [0..<n])"
  by (simp add: sorted_wrt_map sorted_wrt_upt del: upt_Suc)

section \<open>Claims about the store\<close>

text \<open>
  C6 (id assignment). \<open>getNextId\<close> is 100 on an empty collection and the greatest id
  plus one otherwise, so it exceeds every id in the collection it is computed from. In a
  run of \<open>add\<close> commands from any store the ids assigned are consecutive from
  \<open>getNextId\<close> of that store, hence strictly increasing and above every id already
  present, and they are the ids of the entries appended; from an empty store they are
  100, 101, ... (a command that is given no content ends with the \<open>TypeError\<close> of
  \<open>t("errors.noContent")\<close> and assigns no id).
\<close>

theorem nextId_assignment:
  "getNextId [] = 100 \<and>
   (es \<noteq> [] \<longrightarrow> getNextId es = Max (set (map id_entry es)) + 1) \<and>
   (\<forall>e \<in> set es. id_entry e < getNextId es) \<and>
   fst (add_all L inps st) =
     map (\<lambda>k. getNextId (entries st) + int k) [0..<length (fst (add_all L inps st))] \<and>
   map id_entry (entries (snd (add_all L inps st))) =
     map id_entry (entries st) @ fst (add_all L inps st) \<and>
   sorted_wrt (<) (fst (add_all L inps st)) \<and>
   (\<forall>i \<in> set (fst (add_all L inps st)). \<forall>e \<in> set (entries st). id_entry e < i) \<and>
   (entries st = [] \<longrightarrow>
      fst (add_all L inps st) = map (\<lambda>k. 100 + int k) [0..<length (fst (add_all L inps st))])"
proof -
  let ?ids = "fst (add_all L inps st)"
  have ids: "?ids = map (\<lambda>k. getNextId (entries st) + int k) [0..<length ?ids]"
    by (rule add_all_ids)
  have sorted: "sorted_wrt (<) ?ids"
    by (subst ids) (rule sorted_consecutive)
  have above: "\<forall>i \<in> set ?ids. \<forall>e \<in> set (entries st). id_entry e < i"
  proof (intro ballI)
    fix i e assume "i \<in> set ?ids" and e: "e \<in> set (entries st)"
    then have "i \<in> set (map (\<lambda>k. getNextId (entries st) + int k) [0..<length ?ids])"
      using ids by simp
    then have "getNextId (entries st) \<le> i"
      by auto
    with getNextId_gt [OF e] show "id_entry e < i"
      by simp
  qed
  have empty: "entries st = [] \<longrightarrow> ?ids = map (\<lambda>k. 100 + int k) [0..<length ?ids]"
  proof
    assume "entries st = []"
    then have "getNextId (entries st) = 100"
      by (simp add: getNextId_def)
    with ids show "?ids = map (\<lambda>k. 100 + int k) [0..<length ?ids]"
      by simp
  qed
  have "getNextId [] = 100"
    by (simp add: getNextId_def)
  moreover have "es \<noteq> [] \<longrightarrow> getNextId es = Max (set (map id_entry es)) + 1"
    by (simp add: getNextId_def)
  moreover have "\<forall>e \<in> set es. id_entry e < getNextId es"
    by (simp add: getNextId_gt)
  ultimately show ?thesis
    using ids sorted above empty add_all_entries [of L inps st] by blast
qed

theorem nextId_assignment_witness:
  "[note_entry] \<noteq> [] \<and> getNextId [note_entry] = 102 \<and>
   entries empty_store = [] \<and>
   fst (add_all toy_crypto [secret_input, blank_input, note_input] empty_store) = [100, 101] \<and>
   map id_entry (entries (snd (add_all toy_crypto [secret_input, blank_input, note_input] empty_store)))
     = [100, 101] \<and>
   sorted_wrt (<) (fst (add_all toy_crypto [secret_input, blank_input, note_input] empty_store))"
proof -
  have e: "entries empty_store = []"
    by (simp add: empty_store_def)
  have m: "Max (set (map id_entry [note_entry])) = 101"
    by (simp add: note_entry_def)
  show ?thesis
    using nextId_assignment [of "[note_entry]" toy_crypto "[secret_input, blank_input, note_input]"
        empty_store] e m
    unfolding add_all_sample
    by (simp add: secret_store_def secret_entry_def note_entry_def)
qed

text \<open>
  C10 (delete never fails). For every argument \<open>delete\<close> reports success: it keeps the
  entries whose id is not \<open>parseInt\<close> of the argument, removes the vault record stored
  under the argument as a key, and writes both collections. When no entry has that id and
  no vault record has that key, both collections are unchanged; deleting a second time
  gives the state and the report of deleting once.
\<close>

theorem delete_never_fails:
  "fst (delete_action idstr st) = Inr () \<and>
   entries (snd (delete_action idstr st)) =
     filter (\<lambda>e. Some (id_entry e) \<noteq> parseInt idstr) (entries st) \<and>
   secrets (snd (delete_action idstr st)) = (secrets st)(idstr := None) \<and>
   (list_all (\<lambda>e. Some (id_entry e) \<noteq> parseInt idstr) (entries st) \<and> secrets st idstr = None \<longrightarrow>
      snd (delete_action idstr st) = st) \<and>
   delete_action idstr (snd (delete_action idstr st)) = delete_action idstr st"
proof -
  have "list_all (\<lambda>e. Some (id_entry e) \<noteq> parseInt idstr) (entries st) \<and> secrets st idstr = None \<longrightarrow>
      snd (delete_action idstr st) = st"
  proof
    assume a: "list_all (\<lambda>e. Some (id_entry e) \<noteq> parseInt idstr) (entries st) \<and> secrets st idstr = None"
    then have "filter (\<lambda>e. Some (id_entry e) \<noteq> parseInt idstr) (entries st) = entries st"
      by (simp add: filter_id_conv list_all_iff)
    moreover have "(secrets st)(idstr := None) = secrets st"
      using a by (simp add: fun_upd_idem)
    ultimately show "snd (delete_action idstr st) = st"
      by (simp add: delete_action_def)
  qed
  then show ?thesis
    by (simp add: delete_action_def)
qed

theorem delete_never_fails_witness:
  "list_all (\<lambda>e. Some (id_entry e) \<noteq> parseInt ''105'') (entries secret_store) \<and>
   secrets secret_store ''105'' = None \<and>
   delete_action ''105'' secret_store = (Inr (), secret_store) \<and>
   list_all (\<lambda>e. Some (id_entry e) \<noteq> parseInt ''abc'') (entries secret_store) \<and>
   secrets secret_store ''abc'' = None \<and>
   delete_action ''abc'' secret_store = (Inr (), secret_store) \<and>
   delete_action ''100'' secret_store = (Inr (), \<lparr> entries = [note_entry], secrets = Map.empty \<rparr>) \<and>
   delete_action ''100'' (snd (delete_action ''100'' secret_store)) = delete_action ''100'' secret_store"
proof -
  have c: "parseInt ''abc'' = None"
    by (simp add: parseInt_def is_space1_def is_space2_def is_space3_def digit_value_def is_digit_def Let_def)
  have a: "list_all (\<lambda>e. Some (id_entry e) \<noteq> parseInt ''105'') (entries secret_store)"
    "list_all (\<lambda>e. Some (id_entry e) \<noteq> parseInt ''abc'') (entries secret_store)"
    by (simp_all add: parseInt_samples c secret_store_def secret_entry_def note_entry_def)
  have b: "secrets secret_store ''105'' = None" "secrets secret_store ''abc'' = None"
    by (simp_all add: secret_store_def)
  have d: "delete_action ''100'' secret_store =
      (Inr (), \<lparr> entries = [note_entry], secrets = Map.empty \<rparr>)"
    by (simp add: delete_action_def parseInt_samples secret_store_def secret_entry_def note_entry_def)
  have r105: "delete_action ''105'' secret_store = (Inr (), secret_store)"
    using delete_never_fails [of "''105''" secret_store] a(1) b(1)
    by (simp add: prod_eq_iff)
  have rabc: "delete_action ''abc'' secret_store = (Inr (), secret_store)"
    using delete_never_fails [of "''abc''" secret_store] a(2) b(2)
    by (simp add: prod_eq_iff)
  have twice: "delete_action ''100'' (snd (delete_action ''100'' secret_store)) =
      delete_action ''100'' secret_store"
    using delete_never_fails [of "''100''" secret_store] by blast
  from a(1) b(1) r105 a(2) b(2) rabc d twice show ?thesis
    by (intro conjI)
qed

lemma update_first_split:
  "find p es = Some e \<Longrightarrow>
   \<exists>pre post. es = pre @ e # post \<and> (\<forall>x \<in> set pre. \<not> p x) \<and> p e \<and>
     update_first p f es = pre @ f e # post"
proof (induction es)
  case Nil
  then show ?case by simp
next
  case (Cons a es)
  show ?case
  proof (cases "p a")
    case True
    with Cons.prems have "a = e" by simp
    with True have "a # es = [] @ e # es \<and> (\<forall>x \<in> set []. \<not> p x) \<and> p e \<and>
        update_first p f (a # es) = [] @ f e # es"
      by simp
    then show ?thesis by blast
  next
    case False
    with Cons.prems have "find p es = Some e" by simp
    from Cons.IH [OF this] obtain pre post where
      "es = pre @ e # post" "\<forall>x \<in> set pre. \<not> p x" "p e" "update_first p f es = pre @ f e # post"
      by blast
    with False have "a # es = (a # pre) @ e # post \<and> (\<forall>x \<in> set (a # pre). \<not> p x) \<and> p e \<and>
        update_first p f (a # es) = (a # pre) @ f e # post"
      by simp
    then show ?thesis by blast
  qed
qed

lemma map_update_first: "(\<And>x. g (f x) = g x) \<Longrightarrow> map g (update_first p f es) = map g es"
  by (induction es) simp_all

lemma pred_update_first:
  "\<forall>e \<in> set es. Q e \<Longrightarrow> (\<And>x. Q x \<Longrightarrow> Q (f x)) \<Longrightarrow> \<forall>e \<in> set (update_first p f es). Q e"
  by (induction es) simp_all

lemma has_id_samples: "has_id ''100'' secret_entry" "has_id ''0100'' secret_entry"
  "\<not> has_id ''101'' secret_entry" "has_id ''101'' note_entry"
  "\<not> has_id ''105'' secret_entry" "\<not> has_id ''105'' note_entry"
  by (simp_all add: has_id_def parseInt_samples secret_entry_def note_entry_def)

lemma find_secret: "find (has_id ''100'') (entries secret_store) = Some secret_entry"
  by (simp add: secret_store_def has_id_samples)

lemma find_note: "find (has_id ''101'') (entries secret_store) = Some note_entry"
  by (simp add: secret_store_def has_id_samples)

lemma decrypt_secret: "decrypt toy_crypto (secrets secret_store ''100'') ''pw'' = Some ''secret''"
proof -
  have "length iv_a = 16"
    by (simp add: iv_a_def)
  then show ?thesis
    by (simp add: secret_store_def decrypt_encrypt [OF toy_contract])
qed

lemma decrypt_secret_wrong: "decrypt toy_crypto (secrets secret_store ''100'') ''pX'' = None"
  by (simp add: secret_store_def toy_wrong_password)

section \<open>Claims about get\<close>

text \<open>
  C2 (get on an encrypted entry), as the code has it. Let \<open>e\<close> be the entry that
  \<open>get\<close> resolves, with \<open>encrypted e\<close>. Whatever the vault holds and whatever
  password would be typed, \<open>get\<close> ends with \<open>TypeError\<close> and the store is as it was:
  the question of the password prompt is built with \<open>t("prompts.enterPassword")\<close>, and
  \<open>t\<close> is not a function. No password is read, \<open>decrypt\<close> is not called, no text is
  returned and the \<open>usageCount\<close> of \<open>e\<close> is not incremented, also where the vault
  record would decrypt under the password.
\<close>

theorem get_encrypted_type_error:
  assumes "find (has_id idstr) (entries st) = Some e" and "encrypted e"
  shows "get_action L idstr pw st = (Inl TypeError, st)"
  using assms by (simp add: get_action_def)

theorem get_encrypted_type_error_witness:
  "add_all toy_crypto [secret_input, blank_input, note_input] empty_store = ([100, 101], secret_store) \<and>
   find (has_id ''100'') (entries secret_store) = Some secret_entry \<and> encrypted secret_entry \<and>
   decrypt toy_crypto (secrets secret_store ''100'') ''pw'' = Some ''secret'' \<and>
   get_action toy_crypto ''100'' ''pw'' secret_store = (Inl TypeError, secret_store) \<and>
   decrypt toy_crypto (secrets secret_store ''100'') ''pX'' = None \<and>
   get_action toy_crypto ''100'' ''pX'' secret_store = (Inl TypeError, secret_store)"
proof -
  have e: "encrypted secret_entry"
    by (simp add: secret_entry_def)
  have a: "get_action toy_crypto ''100'' ''pw'' secret_store = (Inl TypeError, secret_store)"
    using get_encrypted_type_error [OF find_secret e, of toy_crypto "''pw''"] .
  have b: "get_action toy_crypto ''100'' ''pX'' secret_store = (Inl TypeError, secret_store)"
    using get_encrypted_type_error [OF find_secret e, of toy_crypto "''pX''"] .
  from add_all_sample find_secret e decrypt_secret a decrypt_secret_wrong b show ?thesis
    by (intro conjI)
qed

section \<open>Facts about get and edit\<close>

lemma get_action_encrypted:
  assumes "find (has_id idstr) (entries st) = Some e" "encrypted e"
  shows "get_action L idstr pw st = (Inl TypeError, st)"
  using assms by (simp add: get_action_def)

lemma get_action_plain:
  assumes "find (has_id idstr) (entries st) = Some e" "\<not> encrypted e"
  shows "get_action L idstr pw st =
           (Inr (content e), st\<lparr> entries := update_first (has_id idstr) touch (entries st) \<rparr>)"
  using assms by (simp add: get_action_def)

lemma get_action_cases:
  "get_action L idstr pw st = (Inl NotFound, st) \<or>
   get_action L idstr pw st = (Inl TypeError, st) \<or>
   (\<exists>d. get_action L idstr pw st =
      (Inr d, st\<lparr> entries := update_first (has_id idstr) touch (entries st) \<rparr>))"
  by (auto simp: get_action_def split: option.splits)

lemma get_note:
  "get_action toy_crypto ''101'' pw secret_store =
     (Inr ''React hook'',
      \<lparr> entries = [secret_entry, note_entry\<lparr> usageCount := 1 \<rparr>], secrets = secrets secret_store \<rparr>)"
proof -
  have n: "\<not> encrypted note_entry" "content note_entry = ''React hook''" "usageCount note_entry = 0"
    by (simp_all add: note_entry_def)
  have u: "update_first (has_id ''101'') touch (entries secret_store) =
      [secret_entry, note_entry\<lparr> usageCount := 1 \<rparr>]"
    by (simp add: secret_store_def has_id_samples touch_def n)
  show ?thesis
    using get_action_plain [OF find_note n(1), of toy_crypto pw] by (simp add: u n)
qed

text \<open>
  \<open>edit\<close> ends in one of two ways, and in both the store is as it was: with the
  \<open>TypeError\<close> of a call of \<open>t\<close> (for an id that is not found, and when the questions
  for the new content are built), or with the report of a wrong password.
\<close>

lemma edit_action_cases:
  "edit_action L idstr inp st = (Inl TypeError, st) \<or>
   edit_action L idstr inp st = (Inl WrongPassword, st)"
  by (auto simp: edit_action_def split: option.splits)

lemma edit_action_store: "snd (edit_action L idstr inp st) = st"
  using edit_action_cases [of L idstr inp st] by auto

lemma edit_sample_result:
  "edit_action toy_crypto ''100'' edit_sample secret_store = (Inl TypeError, secret_store)"
proof -
  have e: "encrypted secret_entry"
    by (simp add: secret_entry_def)
  have p: "edit_password edit_sample = ''pw''"
    by (simp add: edit_sample_def)
  show ?thesis
    unfolding edit_action_def find_secret
    by (simp add: e p decrypt_secret)
qed

lemma edit_sample_wrong_password:
  "edit_action toy_crypto ''100'' (edit_sample\<lparr> edit_password := ''pX'' \<rparr>) secret_store =
     (Inl WrongPassword, secret_store)"
proof -
  have e: "encrypted secret_entry"
    by (simp add: secret_entry_def)
  show ?thesis
    unfolding edit_action_def find_secret
    by (simp add: e decrypt_secret_wrong)
qed

lemma edit_sample_plain:
  "edit_action toy_crypto ''101'' edit_sample secret_store = (Inl TypeError, secret_store)"
proof -
  have e: "\<not> encrypted note_entry"
    by (simp add: note_entry_def)
  show ?thesis
    unfolding edit_action_def find_note
    by (simp add: e)
qed

lemma edit_sample_absent:
  "edit_action toy_crypto ''105'' edit_sample secret_store = (Inl TypeError, secret_store)"
  by (simp add: edit_action_def secret_store_def has_id_samples)

lemma inv_add: "encrypted_inv st \<Longrightarrow> encrypted_inv (snd (add_action L inp st))"
  using add_action_cases [of L inp st] by (auto simp: encrypted_inv_def)

lemma inv_get: "encrypted_inv st \<Longrightarrow> encrypted_inv (snd (get_action L idstr pw st))"
proof -
  assume inv: "encrypted_inv st"
  have "\<forall>e \<in> set (update_first (has_id idstr) touch (entries st)). encrypted e \<longrightarrow> content e = sentinel"
    using inv by (intro pred_update_first) (simp_all add: encrypted_inv_def touch_def)
  then show ?thesis
    using get_action_cases [of L idstr pw st] inv by (auto simp: encrypted_inv_def)
qed

lemma inv_edit: "encrypted_inv st \<Longrightarrow> encrypted_inv (snd (edit_action L idstr inp st))"
  by (simp add: edit_action_store)

lemma inv_delete: "encrypted_inv st \<Longrightarrow> encrypted_inv (snd (delete_action idstr st))"
  by (simp add: encrypted_inv_def delete_action_def)

lemma flags_get:
  "map (\<lambda>e. (id_entry e, encrypted e, content e)) (entries (snd (get_action L idstr pw st))) =
   map (\<lambda>e. (id_entry e, encrypted e, content e)) (entries st)"
  using get_action_cases [of L idstr pw st]
  by (auto simp: map_update_first touch_def)

lemma add_prefix: "take (length (entries st)) (entries (snd (add_action L inp st))) = entries st"
  using add_action_cases [of L inp st] by auto

lemma add_encrypted_entry:
  assumes "fst (add_action L inp st) = Inr i" "add_encrypted inp"
  shows "entries (snd (add_action L inp st)) \<noteq> [] \<and>
         id_entry (last (entries (snd (add_action L inp st)))) = i \<and>
         encrypted (last (entries (snd (add_action L inp st)))) \<and>
         content (last (entries (snd (add_action L inp st)))) = sentinel \<and>
         secrets (snd (add_action L inp st)) (number_key i) \<noteq> None"
  using add_action_cases [of L inp st] assms by auto

lemma secret_store_inv: "encrypted_inv secret_store"
  by (simp add: encrypted_inv_def secret_store_def secret_entry_def note_entry_def)

lemma add_second_secret:
  "add_action toy_crypto secret_input secret_store =
     (Inr 102,
      \<lparr> entries = [secret_entry, note_entry, secret_entry\<lparr> id_entry := 102 \<rparr>],
        secrets = [''100'' \<mapsto> encrypt toy_crypto salt_a iv_a ''secret'' ''pw'',
                   ''102'' \<mapsto> encrypt toy_crypto salt_a iv_a ''secret'' ''pw''] \<rparr>)"
proof -
  have k: "number_key 102 = ''102''"
    by (simp add: number_key_def char_of_eq_iff)
  have n: "getNextId (entries secret_store) = 102"
    by (simp add: getNextId_def secret_store_def secret_entry_def note_entry_def)
  show ?thesis
    unfolding add_action_def n
    by (simp add: secret_input_def trim_samples k secret_store_def secret_entry_def)
qed

section \<open>Claims about the invariant of encrypted entries\<close>

text \<open>
  C3 (invariant of encrypted entries). The invariant holds of a store with no entries,
  and if every encrypted entry of the store holds the sentinel as its content, the same
  is true after \<open>add\<close>, \<open>get\<close>, \<open>edit\<close> and \<open>delete\<close> (\<open>find\<close> and \<open>tags\<close> only
  read the entries and return no store). An
  \<open>add\<close> with \<open>--encrypted\<close> appends an entry flagged encrypted whose content is the
  sentinel. No command changes the flag or the id of an entry it keeps: \<open>add\<close> keeps
  the old entries as they are, \<open>get\<close> keeps ids, flags and contents, \<open>edit\<close> keeps ids
  and flags, \<open>delete\<close> keeps a sublist. An \<open>edit\<close> of an encrypted entry leaves every
  content untouched and changes, in the vault, at most the record under its argument.
  In the code as it is, \<open>edit\<close> keeps all of this in the plainest way: it ends before it
  writes (a wrong password, or the \<open>TypeError\<close> of a call of \<open>t\<close>), so the store after
  \<open>edit\<close> is the store before it.
\<close>

theorem encrypted_invariant:
  assumes "encrypted_inv st"
  shows
    "encrypted_inv \<lparr> entries = [], secrets = v \<rparr> \<and>
     encrypted_inv (snd (add_action L ainp st)) \<and>
     encrypted_inv (snd (get_action L idstr pw st)) \<and>
     encrypted_inv (snd (edit_action L idstr einp st)) \<and>
     encrypted_inv (snd (delete_action idstr st)) \<and>
     (fst (add_action L ainp st) = Inr i \<and> add_encrypted ainp \<longrightarrow>
        encrypted (last (entries (snd (add_action L ainp st)))) \<and>
        content (last (entries (snd (add_action L ainp st)))) = sentinel \<and>
        id_entry (last (entries (snd (add_action L ainp st)))) = i) \<and>
     take (length (entries st)) (entries (snd (add_action L ainp st))) = entries st \<and>
     map (\<lambda>e. (id_entry e, encrypted e, content e)) (entries (snd (get_action L idstr pw st))) =
       map (\<lambda>e. (id_entry e, encrypted e, content e)) (entries st) \<and>
     map (\<lambda>e. (id_entry e, encrypted e)) (entries (snd (edit_action L idstr einp st))) =
       map (\<lambda>e. (id_entry e, encrypted e)) (entries st) \<and>
     (find (has_id idstr) (entries st) = Some e \<and> encrypted e \<longrightarrow>
        map content (entries (snd (edit_action L idstr einp st))) = map content (entries st)) \<and>
     (\<forall>k. k \<noteq> idstr \<longrightarrow> secrets (snd (edit_action L idstr einp st)) k = secrets st k) \<and>
     snd (edit_action L idstr einp st) = st \<and>
     entries (snd (delete_action idstr st)) =
       filter (\<lambda>e. Some (id_entry e) \<noteq> parseInt idstr) (entries st)"
proof -
  have "fst (add_action L ainp st) = Inr i \<and> add_encrypted ainp \<longrightarrow>
        encrypted (last (entries (snd (add_action L ainp st)))) \<and>
        content (last (entries (snd (add_action L ainp st)))) = sentinel \<and>
        id_entry (last (entries (snd (add_action L ainp st)))) = i"
    using add_encrypted_entry [of L ainp st i] by blast
  moreover have "entries (snd (delete_action idstr st)) =
       filter (\<lambda>e. Some (id_entry e) \<noteq> parseInt idstr) (entries st)"
    by (simp add: delete_action_def)
  moreover have "encrypted_inv \<lparr> entries = [], secrets = v \<rparr>"
    by (simp add: encrypted_inv_def)
  moreover have ed: "snd (edit_action L idstr einp st) = st"
    by (rule edit_action_store)
  moreover have "encrypted_inv (snd (edit_action L idstr einp st))"
    using assms by (rule inv_edit)
  moreover have "map (\<lambda>e. (id_entry e, encrypted e)) (entries (snd (edit_action L idstr einp st))) =
       map (\<lambda>e. (id_entry e, encrypted e)) (entries st)"
    by (simp only: ed)
  moreover have "find (has_id idstr) (entries st) = Some e \<and> encrypted e \<longrightarrow>
        map content (entries (snd (edit_action L idstr einp st))) = map content (entries st)"
    by (simp only: ed) simp
  moreover have "\<forall>k. k \<noteq> idstr \<longrightarrow> secrets (snd (edit_action L idstr einp st)) k = secrets st k"
    by (simp only: ed) simp
  moreover note inv_add [OF assms, of L ainp] inv_get [OF assms, of L idstr pw]
    inv_delete [OF assms, of idstr] add_prefix [of st L ainp] flags_get [of L idstr pw st]
  ultimately show ?thesis
    by (intro conjI)
qed

theorem encrypted_invariant_witness:
  "encrypted_inv secret_store \<and>
   fst (add_action toy_crypto secret_input secret_store) = Inr 102 \<and> add_encrypted secret_input \<and>
   encrypted (last (entries (snd (add_action toy_crypto secret_input secret_store)))) \<and>
   content (last (entries (snd (add_action toy_crypto secret_input secret_store)))) = sentinel \<and>
   find (has_id ''100'') (entries secret_store) = Some secret_entry \<and> encrypted secret_entry \<and>
   edit_action toy_crypto ''100'' edit_sample secret_store = (Inl TypeError, secret_store) \<and>
   map content (entries (snd (edit_action toy_crypto ''100'' edit_sample secret_store))) =
     map content (entries secret_store) \<and>
   map (\<lambda>e. (id_entry e, encrypted e)) (entries (snd (edit_action toy_crypto ''100'' edit_sample secret_store))) =
     [(100, True), (101, False)] \<and>
   encrypted_inv (snd (edit_action toy_crypto ''100'' edit_sample secret_store)) \<and>
   encrypted_inv (snd (get_action toy_crypto ''100'' ''pw'' secret_store)) \<and>
   get_action toy_crypto ''101'' [] secret_store =
     (Inr ''React hook'',
      \<lparr> entries = [secret_entry, note_entry\<lparr> usageCount := 1 \<rparr>], secrets = secrets secret_store \<rparr>) \<and>
   encrypted_inv (snd (get_action toy_crypto ''101'' [] secret_store)) \<and>
   encrypted_inv (snd (delete_action ''100'' secret_store))"
proof -
  have a: "fst (add_action toy_crypto secret_input secret_store) = Inr 102"
    by (simp add: add_second_secret)
  have b: "add_encrypted secret_input"
    by (simp add: secret_input_def)
  have e: "encrypted secret_entry"
    by (simp add: secret_entry_def)
  have f: "map (\<lambda>e. (id_entry e, encrypted e)) (entries secret_store) = [(100, True), (101, False)]"
    by (simp add: secret_store_def secret_entry_def note_entry_def)
  note at100 = encrypted_invariant [OF secret_store_inv, where L = toy_crypto and ainp = secret_input
        and idstr = "''100''" and pw = "''pw''" and einp = edit_sample and i = 102
        and e = secret_entry and v = Map.empty]
  note at101 = encrypted_invariant [OF secret_store_inv, where L = toy_crypto and ainp = secret_input
        and idstr = "''101''" and pw = "[]" and einp = edit_sample and i = 102
        and e = secret_entry and v = Map.empty]
  have c1: "encrypted (last (entries (snd (add_action toy_crypto secret_input secret_store))))"
    and c2: "content (last (entries (snd (add_action toy_crypto secret_input secret_store)))) = sentinel"
    using at100 a b by blast+
  have c3: "map content (entries (snd (edit_action toy_crypto ''100'' edit_sample secret_store))) =
     map content (entries secret_store)"
    using at100 find_secret e by blast
  have c4: "map (\<lambda>e. (id_entry e, encrypted e))
      (entries (snd (edit_action toy_crypto ''100'' edit_sample secret_store))) =
     [(100, True), (101, False)]"
    using at100 f by simp
  have c5: "encrypted_inv (snd (edit_action toy_crypto ''100'' edit_sample secret_store))"
    and c6: "encrypted_inv (snd (get_action toy_crypto ''100'' ''pw'' secret_store))"
    and c7: "encrypted_inv (snd (delete_action ''100'' secret_store))"
    using at100 by blast+
  have c8: "encrypted_inv (snd (get_action toy_crypto ''101'' [] secret_store))"
    using at101 by blast
  from secret_store_inv a b c1 c2 find_secret e edit_sample_result c3 c4 c5 c6 get_note c8 c7
  show ?thesis
    by (intro conjI)
qed

section \<open>Facts about the tag table\<close>

lemma tags_example:
  "tags_action [tagged [''a'', ''b''], tagged [''a''], tagged [''b'', ''b'']] = Some [(''b'', 3), (''a'', 2)]"
  by (simp add: tags_action_def tagged_def object_prototype_names_def tagMap_of_def
      Object_entries_def sort_by_count_def array_index_def is_digit_def)

lemma tags_example2:
  "tags_action [tagged [''b''], tagged [''10''], tagged [''9'']] = Some [(''9'', 1), (''10'', 1), (''b'', 1)]"
  by (simp add: tags_action_def tagged_def object_prototype_names_def tagMap_of_def
      Object_entries_def sort_by_count_def array_index_def is_digit_def number_of_digits_def digit_value_def)

lemma keys_bump:
  "map fst (bump t m) = (if t \<in> set (map fst m) then map fst m else map fst m @ [t])"
proof (induction m)
  case Nil
  show ?case by simp
next
  case (Cons a m)
  obtain k c where a: "a = (k, c)" by (cases a)
  show ?case
    using Cons by (simp add: a)
qed

lemma keys_fold_bump:
  "map fst (fold bump ts m) =
     fold (\<lambda>t seen. if t \<in> set seen then seen else seen @ [t]) ts (map fst m)"
  by (induction ts arbitrary: m) (simp_all add: keys_bump)

lemma seen_fold_facts:
  "distinct seen \<Longrightarrow>
   distinct (fold (\<lambda>t seen. if t \<in> set seen then seen else seen @ [t]) ts seen) \<and>
   set (fold (\<lambda>t seen. if t \<in> set seen then seen else seen @ [t]) ts seen) = set seen \<union> set ts"
  by (induction ts arbitrary: seen) auto

lemma distinct_first_seen: "distinct (first_seen ts)"
  using seen_fold_facts [of "[]" ts] by (simp add: first_seen_def)

lemma set_first_seen: "set (first_seen ts) = set ts"
  using seen_fold_facts [of "[]" ts] by (simp add: first_seen_def)

lemma map_of_bump:
  "map_of (bump t m) = (map_of m)(t \<mapsto> (case map_of m t of None \<Rightarrow> 1 | Some c \<Rightarrow> c + 1))"
  by (induction m) (auto simp: fun_upd_twist)

lemma map_of_fold_bump:
  "map_of (fold bump ts m) k =
     (if count_list ts k = 0 then map_of m k
      else Some (count_list ts k + (case map_of m k of None \<Rightarrow> 0 | Some c \<Rightarrow> c)))"
proof (induction ts arbitrary: m)
  case Nil
  show ?case by simp
next
  case (Cons t ts)
  show ?case
    by (simp add: Cons.IH map_of_bump split: option.splits)
qed

lemma rows_of_keys:
  assumes "distinct (map fst m)"
  shows "map (\<lambda>k. (k, the (map_of m k))) (map fst m) = m"
proof -
  have "map (\<lambda>r. (fst r, the (map_of m (fst r)))) m = map (\<lambda>r. r) m"
  proof (intro map_cong refl)
    fix r assume "r \<in> set m"
    then have "map_of m (fst r) = Some (snd r)"
      using assms by (intro map_of_is_SomeI) simp_all
    then show "(fst r, the (map_of m (fst r))) = r"
      by simp
  qed
  then show ?thesis
    by (simp add: o_def)
qed

lemma fold_bump_rows:
  "fold bump ts [] = map (\<lambda>t. (t, count_list ts t)) (first_seen ts)"
proof -
  let ?m = "fold bump ts []"
  have keys: "map fst ?m = first_seen ts"
    by (simp add: keys_fold_bump first_seen_def)
  then have "distinct (map fst ?m)"
    by (simp add: distinct_first_seen)
  then have "?m = map (\<lambda>k. (k, the (map_of ?m k))) (first_seen ts)"
    using rows_of_keys [of ?m] keys by simp
  also have "\<dots> = map (\<lambda>t. (t, count_list ts t)) (first_seen ts)"
  proof (intro map_cong refl)
    fix k assume "k \<in> set (first_seen ts)"
    then have "k \<in> set ts"
      by (simp add: set_first_seen)
    then have "count_list ts k \<noteq> 0"
      by (simp add: count_list_0_iff)
    then show "(k, the (map_of ?m k)) = (k, count_list ts k)"
      by (simp add: map_of_fold_bump)
  qed
  finally show ?thesis .
qed

lemma fold_tags_flat:
  "fold (\<lambda>e m. fold bump (tags e) m) es m = fold bump (concat (map tags es)) m"
  by (induction es arbitrary: m) simp_all

lemma tagMap_of_rows:
  "tagMap_of es =
     map (\<lambda>t. (t, count_list (concat (map tags es)) t)) (first_seen (concat (map tags es)))"
  by (simp add: tagMap_of_def fold_tags_flat fold_bump_rows)

lemma set_Object_entries: "set (Object_entries m) = set m"
  by (auto simp: Object_entries_def)

lemma distinct_Object_entries: "distinct m \<Longrightarrow> distinct (Object_entries m)"
  by (auto simp: Object_entries_def)

lemma Object_entries_no_index:
  "\<forall>r \<in> set m. array_index (fst r) = None \<Longrightarrow> Object_entries m = m"
proof -
  assume a: "\<forall>r \<in> set m. array_index (fst r) = None"
  then have "filter (\<lambda>(k, c). array_index k \<noteq> None) m = []"
    by (auto simp: filter_empty_conv)
  moreover have "filter (\<lambda>(k, c). array_index k = None) m = m"
    using a by (auto simp: filter_id_conv)
  ultimately show ?thesis
    by (simp add: Object_entries_def)
qed

lemma sort_by_count_sorted: "sorted_wrt (\<lambda>a b. snd b \<le> snd a) (sort_by_count rows)"
proof -
  have "sorted (map (\<lambda>(k, c). - int c) (sort_key (\<lambda>(k, c). - int c) rows))"
    by (rule sorted_sort_key)
  then show ?thesis
    by (simp add: sort_by_count_def sorted_map case_prod_unfold)
qed

lemma sort_by_count_stable:
  "filter (\<lambda>r. snd r = c) (sort_by_count rows) = filter (\<lambda>r. snd r = c) rows"
proof -
  have eq: "(\<lambda>r :: string \<times> nat. snd r = c) = (\<lambda>r. (case r of (k, n) \<Rightarrow> - int n) = - int c)"
    by (auto simp: fun_eq_iff)
  show ?thesis
    unfolding sort_by_count_def eq by (rule sort_key_stable)
qed

lemma set_sort_by_count: "set (sort_by_count rows) = set rows"
  by (simp add: sort_by_count_def)

lemma distinct_keys_permuted:
  assumes "distinct (map fst m)" "set r = set m" "distinct r"
  shows "distinct (map fst r)"
proof -
  have "inj_on fst (set m)"
    using assms(1) by (simp add: distinct_map)
  with assms(2,3) show ?thesis
    by (simp add: distinct_map)
qed

section \<open>Claims about the tag table\<close>

text \<open>
  C8 (tag aggregation), as the code has it. Where no tag is the name of a property of
  \<open>Object.prototype\<close>, \<open>tags\<close> returns one row for every tag, with the number of its
  occurrences in all entries, repeated tags of one entry counted each time; the rows are
  in descending order of count, and rows of equal count keep the order of
  \<open>Object.entries\<close>: tags that are array indices first, in ascending numeric order,
  then the other tags in the order in which they are first met. For the entries tagged
  \<open>["a","b"]\<close>, \<open>["a"]\<close>, \<open>["b","b"]\<close> the rows are \<open>b: 3\<close>, \<open>a: 2\<close>.
\<close>

theorem tags_aggregation:
  assumes "\<not> list_ex (\<lambda>t. t \<in> set object_prototype_names) (concat (map tags es))"
  shows "\<exists>rows. tags_action es = Some rows \<and>
      distinct (map fst rows) \<and>
      set rows = (\<lambda>t. (t, count_list (concat (map tags es)) t)) ` set (concat (map tags es)) \<and>
      sorted_wrt (\<lambda>a b. snd b \<le> snd a) rows \<and>
      (\<forall>c. filter (\<lambda>r. snd r = c) rows =
           filter (\<lambda>r. snd r = c)
             (Object_entries (map (\<lambda>t. (t, count_list (concat (map tags es)) t))
                (first_seen (concat (map tags es)))))) \<and>
      (list_all (\<lambda>t. array_index t = None) (concat (map tags es)) \<longrightarrow>
         (\<forall>c. map fst (filter (\<lambda>r. snd r = c) rows) =
              filter (\<lambda>t. count_list (concat (map tags es)) t = c)
                (first_seen (concat (map tags es)))))"
proof -
  define ts where "ts = concat (map tags es)"
  define m where "m = map (\<lambda>t. (t, count_list ts t)) (first_seen ts)"
  define rows where "rows = sort_by_count (Object_entries m)"
  have tm: "tagMap_of es = m"
    by (simp add: tagMap_of_rows m_def ts_def)
  have res: "tags_action es = Some rows"
    using assms by (simp add: tags_action_def tm rows_def)
  have keys_m: "map fst m = first_seen ts"
    by (simp add: m_def o_def)
  have dist_m: "distinct (map fst m)"
    by (simp add: keys_m distinct_first_seen)
  then have "distinct m"
    by (simp add: distinct_map)
  then have dist_rows: "distinct rows"
    by (simp add: rows_def sort_by_count_def distinct_Object_entries)
  have set_rows: "set rows = set m"
    by (simp add: rows_def set_sort_by_count set_Object_entries)
  have c1: "distinct (map fst rows)"
    using dist_m set_rows dist_rows by (rule distinct_keys_permuted)
  have c2: "set rows = (\<lambda>t. (t, count_list ts t)) ` set ts"
    by (simp add: set_rows m_def set_first_seen)
  have c3: "sorted_wrt (\<lambda>a b. snd b \<le> snd a) rows"
    by (simp add: rows_def sort_by_count_sorted)
  have c4: "\<forall>c. filter (\<lambda>r. snd r = c) rows = filter (\<lambda>r. snd r = c) (Object_entries m)"
    by (simp add: rows_def sort_by_count_stable)
  have c5: "list_all (\<lambda>t. array_index t = None) ts \<longrightarrow>
         (\<forall>c. map fst (filter (\<lambda>r. snd r = c) rows) = filter (\<lambda>t. count_list ts t = c) (first_seen ts))"
  proof (intro impI allI)
    fix c
    assume "list_all (\<lambda>t. array_index t = None) ts"
    then have "\<forall>r \<in> set m. array_index (fst r) = None"
      by (auto simp: m_def set_first_seen list_all_iff)
    then have "Object_entries m = m"
      by (rule Object_entries_no_index)
    then have "filter (\<lambda>r. snd r = c) rows = filter (\<lambda>r. snd r = c) m"
      using c4 by simp
    then show "map fst (filter (\<lambda>r. snd r = c) rows) = filter (\<lambda>t. count_list ts t = c) (first_seen ts)"
      by (simp add: m_def filter_map o_def)
  qed
  show ?thesis
    using res c1 c2 c3 c4 c5 unfolding m_def ts_def by blast
qed

theorem tags_aggregation_witness:
  "\<not> list_ex (\<lambda>t. t \<in> set object_prototype_names)
       (concat (map tags [tagged [''a'', ''b''], tagged [''a''], tagged [''b'', ''b'']])) \<and>
   list_all (\<lambda>t. array_index t = None)
       (concat (map tags [tagged [''a'', ''b''], tagged [''a''], tagged [''b'', ''b'']])) \<and>
   tags_action [tagged [''a'', ''b''], tagged [''a''], tagged [''b'', ''b'']]
     = Some [(''b'', 3), (''a'', 2)] \<and>
   (\<exists>rows. tags_action [tagged [''a'', ''b''], tagged [''a''], tagged [''b'', ''b'']] = Some rows \<and>
      distinct (map fst rows) \<and> sorted_wrt (\<lambda>a b. snd b \<le> snd a) rows \<and>
      set rows = {(''a'', 2), (''b'', 3)} \<and>
      map fst (filter (\<lambda>r. snd r = 3) rows) = [''b''])"
proof -
  let ?es = "[tagged [''a'', ''b''], tagged [''a''], tagged [''b'', ''b'']]"
  have ts: "concat (map tags ?es) = [''a'', ''b'', ''a'', ''b'', ''b'']"
    by (simp add: tagged_def)
  have h: "\<not> list_ex (\<lambda>t. t \<in> set object_prototype_names) (concat (map tags ?es))"
    unfolding ts by (simp add: object_prototype_names_def)
  have ni: "list_all (\<lambda>t. array_index t = None) (concat (map tags ?es))"
    unfolding ts by (simp add: array_index_def is_digit_def)
  have fs: "first_seen [''a'', ''b'', ''a'', ''b'', ''b''] = [''a'', ''b'']"
    by (simp add: first_seen_def)
  let ?ts = "[''a'', ''b'', ''a'', ''b'', ''b'']"
  from tags_aggregation [OF h, unfolded ts] obtain rows where r:
    "tags_action ?es = Some rows \<and>
      distinct (map fst rows) \<and>
      set rows = (\<lambda>t. (t, count_list ?ts t)) ` set ?ts \<and>
      sorted_wrt (\<lambda>a b. snd b \<le> snd a) rows \<and>
      (\<forall>c. filter (\<lambda>r. snd r = c) rows =
           filter (\<lambda>r. snd r = c)
             (Object_entries (map (\<lambda>t. (t, count_list ?ts t)) (first_seen ?ts)))) \<and>
      (list_all (\<lambda>t. array_index t = None) ?ts \<longrightarrow>
         (\<forall>c. map fst (filter (\<lambda>r. snd r = c) rows) =
              filter (\<lambda>t. count_list ?ts t = c) (first_seen ?ts)))"
    by (elim exE)
  have r1: "tags_action ?es = Some rows"
    using r by (elim conjE) assumption
  have r2: "distinct (map fst rows)"
    using r by (elim conjE) assumption
  have r3: "sorted_wrt (\<lambda>a b. snd b \<le> snd a) rows"
    using r by (elim conjE) assumption
  have cnt: "count_list ?ts ''a'' = 2" "count_list ?ts ''b'' = 3"
    by simp_all
  have "set ?ts = {''a'', ''b''}"
    by auto
  then have img: "(\<lambda>t. (t, count_list ?ts t)) ` set ?ts = {(''a'', 2), (''b'', 3)}"
    by (simp only: image_insert image_empty cnt)
  have "set rows = (\<lambda>t. (t, count_list ?ts t)) ` set ?ts"
    using r by (elim conjE) assumption
  then have s: "set rows = {(''a'', 2), (''b'', 3)}"
    unfolding img .
  have ni': "list_all (\<lambda>t. array_index t = None) ?ts"
    using ni unfolding ts .
  have "list_all (\<lambda>t. array_index t = None) ?ts \<longrightarrow>
         (\<forall>c. map fst (filter (\<lambda>r. snd r = c) rows) =
              filter (\<lambda>t. count_list ?ts t = c) (first_seen ?ts))"
    using r by (elim conjE) assumption
  then have "\<forall>c. map fst (filter (\<lambda>r. snd r = c) rows) =
              filter (\<lambda>t. count_list ?ts t = c) (first_seen ?ts)"
    using ni' by (rule mp)
  then have "map fst (filter (\<lambda>r. snd r = 3) rows) = filter (\<lambda>t. count_list ?ts t = 3) (first_seen ?ts)"
    by (rule spec)
  then have t: "map fst (filter (\<lambda>r. snd r = 3) rows) = [''b'']"
    unfolding fs by simp
  have "tags_action ?es = Some rows \<and>
      distinct (map fst rows) \<and> sorted_wrt (\<lambda>a b. snd b \<le> snd a) rows \<and>
      set rows = {(''a'', 2), (''b'', 3)} \<and>
      map fst (filter (\<lambda>r. snd r = 3) rows) = [''b'']"
    using r1 r2 r3 s t by (intro conjI)
  then have ex: "\<exists>rows. tags_action ?es = Some rows \<and>
      distinct (map fst rows) \<and> sorted_wrt (\<lambda>a b. snd b \<le> snd a) rows \<and>
      set rows = {(''a'', 2), (''b'', 3)} \<and>
      map fst (filter (\<lambda>r. snd r = 3) rows) = [''b'']"
    by (rule exI [where x = rows])
  from h ni tags_example ex show ?thesis
    by (intro conjI)
qed

text \<open>
  The claim as stated fails: the counts of its example are \<open>b: 3\<close> and \<open>a: 2\<close>, not
  \<open>a: 2\<close> and \<open>b: 2\<close>; and tags that are array indices do not keep the order in which
  they are first met.
\<close>

theorem tags_aggregation_counterexample:
  "tags_action [tagged [''a'', ''b''], tagged [''a''], tagged [''b'', ''b'']]
     = Some [(''b'', 3), (''a'', 2)] \<and>
   first_seen (concat (map tags [tagged [''b''], tagged [''10''], tagged [''9'']]))
     = [''b'', ''10'', ''9''] \<and>
   tags_action [tagged [''b''], tagged [''10''], tagged [''9'']]
     = Some [(''9'', 1), (''10'', 1), (''b'', 1)]"
  by (simp add: tags_example tags_example2) (simp add: first_seen_def tagged_def)

section \<open>Facts about find\<close>

lemma replace_star_no_star: "CHR ''*'' \<notin> set q \<Longrightarrow> replace_star q = q"
  by (induction q) (auto simp: replace_star_def)

lemma replace_star_append: "replace_star (a @ b) = replace_star a @ replace_star b"
  by (simp add: replace_star_def)

lemma replace_star_star: "replace_star ''*'' = ''.*''"
  by (simp add: replace_star_def)

lemma list_ex_set: "list_ex p xs \<longleftrightarrow> (\<exists>x \<in> set xs. p x)"
  by (simp add: list_ex_iff)

lemma find_action_syntax_error:
  "new_RegExp L (replace_star query) = None \<Longrightarrow>
   find_action L today query date es = Inl SyntaxError"
  by (simp add: find_action_def)

lemma find_action_no_date:
  "new_RegExp L (replace_star query) = Some regex \<Longrightarrow>
   filter (\<lambda>e. regex (content e) \<or> (\<exists>t \<in> set (tags e). regex t)) es \<noteq> [] \<Longrightarrow>
   find_action L today query None es =
     Inr (filter (\<lambda>e. regex (content e) \<or> (\<exists>t \<in> set (tags e). regex t)) es)"
  by (simp add: find_action_def list_ex_set)

lemma find_action_date:
  "new_RegExp L (replace_star query) = Some regex \<Longrightarrow> d \<noteq> [] \<Longrightarrow>
   parseSearchDate L today d = Some fd \<Longrightarrow>
   filter (\<lambda>e. (regex (content e) \<or> (\<exists>t \<in> set (tags e). regex t)) \<and>
                day_of L (timestamp e) = Some fd) es \<noteq> [] \<Longrightarrow>
   find_action L today query (Some d) es =
     Inr (filter (\<lambda>e. (regex (content e) \<or> (\<exists>t \<in> set (tags e). regex t)) \<and>
                       day_of L (timestamp e) = Some fd) es)"
  by (simp add: find_action_def list_ex_set)

lemma find_action_filter:
  "find_action L today query date es = Inr r \<Longrightarrow> \<exists>P. r = filter P es"
  by (auto simp: find_action_def Let_def split: option.splits if_splits)

text \<open>
  When no entry matches, \<open>find\<close> ends with the \<open>TypeError\<close> of
  \<open>t("commands.find.noMatches")\<close>, also for the pattern \<open>*\<close> on an empty collection.
\<close>

lemma find_action_no_match:
  "new_RegExp L (replace_star query) = Some regex \<Longrightarrow>
   filter (\<lambda>e. regex (content e) \<or> (\<exists>t \<in> set (tags e). regex t)) es = [] \<Longrightarrow>
   find_action L today query None es = Inl TypeError"
  by (simp add: find_action_def list_ex_set)

lemma find_action_unrecognized:
  "parseSearchDate L today d = None \<Longrightarrow>
   find_action L today query (Some d) es = find_action L today query None es"
  by (cases "new_RegExp L (replace_star query)") (simp_all add: find_action_def)

lemma parseSearchDate_None:
  "parseSearchDate L today d = None \<longleftrightarrow>
     toLowerCase d \<notin> set todayTerms \<and> toLowerCase d \<notin> set yesterdayTerms \<and>
     parse_date L d ''yyyy-MM-dd'' = None \<and> parse_date L d ''dd.MM.yyyy'' = None"
  by (auto simp: parseSearchDate_def Let_def split: option.splits)

lemma lower_char_samples:
  "lower_char CHR ''R'' = CHR ''r''" "lower_char CHR ''r'' = CHR ''r''"
  "lower_char CHR ''e'' = CHR ''e''" "lower_char CHR ''a'' = CHR ''a''"
  "lower_char CHR ''E'' = CHR ''e''" "lower_char CHR ''*'' = CHR ''*''"
  "lower_char CHR '' '' = CHR '' ''" "lower_char CHR ''w'' = CHR ''w''"
  "lower_char CHR ''s'' = CHR ''s''" "lower_char CHR ''c'' = CHR ''c''"
  "lower_char CHR ''N'' = CHR ''n''" "lower_char CHR ''C'' = CHR ''c''"
  "lower_char CHR ''Y'' = CHR ''y''" "lower_char CHR ''P'' = CHR ''p''"
  "lower_char CHR ''T'' = CHR ''t''" "lower_char CHR ''D'' = CHR ''d''"
  "lower_char CHR ''o'' = CHR ''o''" "lower_char CHR ''k'' = CHR ''k''"
  "lower_char CHR ''u'' = CHR ''u''" "lower_char CHR ''i'' = CHR ''i''"
  "lower_char CHR ''t'' = CHR ''t''" "lower_char CHR ''y'' = CHR ''y''"
  "lower_char CHR ''h'' = CHR ''h''" "lower_char CHR ''('' = CHR ''(''"
  by (simp_all add: lower_char_def char_of_eq_iff)

lemma toy_regex_rea:
  "new_RegExp toy_library (replace_star ''rea*'') =
     Some (match_anywhere [Lit CHR ''r'', Lit CHR ''e'', Lit CHR ''a'', AnyStar])"
  by (simp add: toy_library_def toy_RegExp_def replace_star_def is_plain_def is_digit_def
      lower_char_samples)

lemma toy_regex_star:
  "new_RegExp toy_library (replace_star ''*'') = Some (match_anywhere [AnyStar])"
  by (simp add: toy_library_def toy_RegExp_def replace_star_def)

lemma toy_regex_paren: "new_RegExp toy_library (replace_star ''('') = None"
  by (simp add: toy_library_def toy_RegExp_def replace_star_def is_plain_def is_digit_def
      lower_char_samples)

lemma match_here_star: "match_here [AnyStar] s"
  by (cases s) simp_all

lemma match_anywhere_star: "match_anywhere [AnyStar] s"
  by (cases s) (simp_all add: match_here_star del: match_here.simps)

lemma rea_samples:
  "match_anywhere [Lit CHR ''r'', Lit CHR ''e'', Lit CHR ''a'', AnyStar] ''React hook''"
  "\<not> match_anywhere [Lit CHR ''r'', Lit CHR ''e'', Lit CHR ''a'', AnyStar] sentinel"
  "\<not> match_anywhere [Lit CHR ''r'', Lit CHR ''e'', Lit CHR ''a'', AnyStar] ''work''"
  "\<not> match_anywhere [Lit CHR ''r'', Lit CHR ''e'', Lit CHR ''a'', AnyStar] ''security''"
  "match_anywhere [Lit CHR ''r'', Lit CHR ''e'', Lit CHR ''a'', AnyStar] ''react''"
  "\<not> match_anywhere [Lit CHR ''r'', Lit CHR ''e'', Lit CHR ''a'', AnyStar] ''hooks''"
  by (simp_all add: sentinel_def lower_char_samples)

lemma toy_day_samples:
  "day_of toy_library ''2026-02-10T09:00:00.000Z'' = Some (2026, 2, 10)"
  "day_of toy_library ''2026-02-11T10:30:00.000Z'' = Some (2026, 2, 11)"
  by (simp_all add: toy_library_def toy_day_of_def toy_parse_def toy_ymd_def is_digit_def
      number_of_digits_def digit_value_def days_in_month_def leap_year_def)

lemma toy_parse_samples:
  "parseSearchDate toy_library today_a ''10.02.2026'' = Some (2026, 2, 10)"
  "parseSearchDate toy_library today_a ''Yesterday'' = Some (2026, 2, 10)"
  "parseSearchDate toy_library today_a ''tomorrow'' = None"
  by (simp_all add: parseSearchDate_def toLowerCase_def lower_char_def char_of_eq_iff
      todayTerms_def yesterdayTerms_def toy_library_def toy_parse_def toy_ymd_def is_digit_def
      number_of_digits_def digit_value_def days_in_month_def leap_year_def
      toy_subDays_def prev_day_def today_a_def)

lemma entry_fields:
  "content secret_entry = sentinel" "tags secret_entry = [''work'', ''security'']"
  "timestamp secret_entry = ''2026-02-10T09:00:00.000Z''"
  "content note_entry = ''React hook''" "tags note_entry = [''react'', ''hooks'']"
  "timestamp note_entry = ''2026-02-11T10:30:00.000Z''"
  by (simp_all add: secret_entry_def note_entry_def)

lemma find_no_match_samples:
  "find_action toy_library today_a ''*'' None [] = Inl TypeError"
  "find_action toy_library today_a ''rea*'' None [secret_entry] = Inl TypeError"
proof -
  show "find_action toy_library today_a ''*'' None [] = Inl TypeError"
    using find_action_no_match [OF toy_regex_star, of "[]" today_a] by simp
  show "find_action toy_library today_a ''rea*'' None [secret_entry] = Inl TypeError"
    using find_action_no_match [OF toy_regex_rea, of "[secret_entry]" today_a]
    by (simp add: entry_fields rea_samples del: match_anywhere.simps match_here.simps)
qed

section \<open>Claims about find\<close>

text \<open>
  C4 (search semantics), as the code has it. The pattern is compiled after every \<open>*\<close>
  is replaced by \<open>.*\<close>, the other characters staying as they are. Where the result is
  not a regular expression, \<open>find\<close> ends with the \<open>SyntaxError\<close> of \<open>new RegExp\<close>,
  whatever the collection and the date. Where the expression compiles and at least one
  entry matches, \<open>find\<close> returns the entries, in the order of the collection, whose
  content or one of whose tags the expression matches and, when a date filter is given
  and recognised, whose timestamp falls on that local calendar day. Every list that
  \<open>find\<close> returns is a \<open>filter\<close> of the collection. With the pattern \<open>*\<close> (whose
  expression \<open>.*\<close> matches every string) and no date filter the result of \<open>find\<close> on a
  collection that is not empty is the whole collection.
\<close>

theorem find_semantics:
  "(CHR ''*'' \<notin> set q \<longrightarrow> replace_star q = q) \<and>
   replace_star (a @ ''*'' @ b) = replace_star a @ ''.*'' @ replace_star b \<and>
   (new_RegExp L (replace_star query) = None \<longrightarrow>
      find_action L today query date es = Inl SyntaxError) \<and>
   (new_RegExp L (replace_star query) = Some regex \<and>
    filter (\<lambda>e. regex (content e) \<or> (\<exists>t \<in> set (tags e). regex t)) es \<noteq> [] \<longrightarrow>
      find_action L today query None es =
        Inr (filter (\<lambda>e. regex (content e) \<or> (\<exists>t \<in> set (tags e). regex t)) es)) \<and>
   (new_RegExp L (replace_star query) = Some regex \<and>
    d \<noteq> [] \<and> parseSearchDate L today d = Some fd \<and>
    filter (\<lambda>e. (regex (content e) \<or> (\<exists>t \<in> set (tags e). regex t)) \<and>
                 day_of L (timestamp e) = Some fd) es \<noteq> [] \<longrightarrow>
      find_action L today query (Some d) es =
        Inr (filter (\<lambda>e. (regex (content e) \<or> (\<exists>t \<in> set (tags e). regex t)) \<and>
                          day_of L (timestamp e) = Some fd) es)) \<and>
   (find_action L today query date es = Inr r \<longrightarrow> (\<exists>P. r = filter P es)) \<and>
   (new_RegExp L (replace_star query) = Some regex \<and>
    query = ''*'' \<and> (\<forall>s. regex s) \<and> es \<noteq> [] \<longrightarrow>
      find_action L today query None es = Inr es)"
proof -
  have "new_RegExp L (replace_star query) = Some regex \<and>
        query = ''*'' \<and> (\<forall>s. regex s) \<and> es \<noteq> [] \<longrightarrow>
          find_action L today query None es = Inr es"
  proof
    assume h: "new_RegExp L (replace_star query) = Some regex \<and>
        query = ''*'' \<and> (\<forall>s. regex s) \<and> es \<noteq> []"
    then have re: "new_RegExp L (replace_star query) = Some regex" and ne: "es \<noteq> []"
      and all: "\<forall>s. regex s"
      by blast+
    have "filter (\<lambda>e. regex (content e) \<or> (\<exists>t \<in> set (tags e). regex t)) es = es"
      using all by simp
    with ne show "find_action L today query None es = Inr es"
      using find_action_no_date [OF re, of es today] by simp
  qed
  moreover have "CHR ''*'' \<notin> set q \<longrightarrow> replace_star q = q"
    by (simp add: replace_star_no_star)
  moreover have "replace_star (a @ ''*'' @ b) = replace_star a @ ''.*'' @ replace_star b"
    using replace_star_append [of a "''*'' @ b"] replace_star_append [of "''*''" b]
    by (simp only: replace_star_star)
  moreover have "new_RegExp L (replace_star query) = None \<longrightarrow>
      find_action L today query date es = Inl SyntaxError"
    using find_action_syntax_error [of L query today date es] by blast
  moreover have "new_RegExp L (replace_star query) = Some regex \<and>
      filter (\<lambda>e. regex (content e) \<or> (\<exists>t \<in> set (tags e). regex t)) es \<noteq> [] \<longrightarrow>
        find_action L today query None es =
          Inr (filter (\<lambda>e. regex (content e) \<or> (\<exists>t \<in> set (tags e). regex t)) es)"
    using find_action_no_date [of L query regex es today] by blast
  moreover have "new_RegExp L (replace_star query) = Some regex \<and>
      d \<noteq> [] \<and> parseSearchDate L today d = Some fd \<and>
      filter (\<lambda>e. (regex (content e) \<or> (\<exists>t \<in> set (tags e). regex t)) \<and>
                   day_of L (timestamp e) = Some fd) es \<noteq> [] \<longrightarrow>
        find_action L today query (Some d) es =
          Inr (filter (\<lambda>e. (regex (content e) \<or> (\<exists>t \<in> set (tags e). regex t)) \<and>
                            day_of L (timestamp e) = Some fd) es)"
    using find_action_date [of L query regex d today fd es] by blast
  moreover have "find_action L today query date es = Inr r \<longrightarrow> (\<exists>P. r = filter P es)"
    using find_action_filter [of L today query date es r] by blast
  ultimately show ?thesis
    by (intro conjI)
qed

theorem find_semantics_witness:
  "new_RegExp toy_library (replace_star ''('') = None \<and>
   find_action toy_library today_a ''('' (Some ''10.02.2026'') [secret_entry, note_entry]
     = Inl SyntaxError \<and>
   new_RegExp toy_library (replace_star ''rea*'') =
     Some (match_anywhere [Lit CHR ''r'', Lit CHR ''e'', Lit CHR ''a'', AnyStar]) \<and>
   find_action toy_library today_a ''rea*'' None [secret_entry, note_entry] = Inr [note_entry] \<and>
   new_RegExp toy_library (replace_star ''*'') = Some (match_anywhere [AnyStar]) \<and>
   ''10.02.2026'' \<noteq> [] \<and>
   parseSearchDate toy_library today_a ''10.02.2026'' = Some (2026, 2, 10) \<and>
   find_action toy_library today_a ''*'' (Some ''10.02.2026'') [secret_entry, note_entry]
     = Inr [secret_entry] \<and>
   [secret_entry, note_entry] \<noteq> [] \<and>
   find_action toy_library today_a ''*'' None [secret_entry, note_entry]
     = Inr [secret_entry, note_entry]"
proof -
  have all: "\<forall>s. match_anywhere [AnyStar] s"
    by (simp add: match_anywhere_star)
  have s: "find_action toy_library today_a ''('' (Some ''10.02.2026'') [secret_entry, note_entry]
     = Inl SyntaxError"
    using find_semantics [where L = toy_library and query = "''(''" and today = today_a
        and date = "Some ''10.02.2026''" and es = "[secret_entry, note_entry]"
        and q = "[]" and a = "[]" and b = "[]"] toy_regex_paren
    by blast
  have a: "find_action toy_library today_a ''rea*'' None [secret_entry, note_entry] = Inr [note_entry]"
    using find_semantics [where L = toy_library and query = "''rea*''" and today = today_a
        and es = "[secret_entry, note_entry]" and q = "[]" and a = "[]" and b = "[]"
        and regex = "match_anywhere [Lit CHR ''r'', Lit CHR ''e'', Lit CHR ''a'', AnyStar]"]
      toy_regex_rea
    by (simp add: entry_fields rea_samples del: match_anywhere.simps match_here.simps)
  have b: "find_action toy_library today_a ''*'' (Some ''10.02.2026'') [secret_entry, note_entry]
     = Inr [secret_entry]"
    using find_semantics [where L = toy_library and query = "''*''" and today = today_a
        and es = "[secret_entry, note_entry]" and q = "[]" and a = "[]" and b = "[]"
        and regex = "match_anywhere [AnyStar]" and d = "''10.02.2026''" and fd = "(2026, 2, 10)"]
      toy_regex_star
    by (simp add: entry_fields toy_parse_samples toy_day_samples match_anywhere_star
        del: match_anywhere.simps match_here.simps)
  have c: "find_action toy_library today_a ''*'' None [secret_entry, note_entry]
     = Inr [secret_entry, note_entry]"
    using find_semantics [where L = toy_library and query = "''*''" and today = today_a
        and es = "[secret_entry, note_entry]" and q = "[]" and a = "[]" and b = "[]"
        and regex = "match_anywhere [AnyStar]"]
      toy_regex_star all
    by (simp del: match_anywhere.simps match_here.simps)
  have ne: "''10.02.2026'' \<noteq> []" "[secret_entry, note_entry] \<noteq> []"
    by simp_all
  from toy_regex_paren s toy_regex_rea a toy_regex_star ne(1) toy_parse_samples(1) b ne(2) c
  show ?thesis
    by (intro conjI)
qed

text \<open>
  The claim as stated fails: it is made for every pattern string, and for the pattern
  \<open>(\<close>, which is not a regular expression, \<open>find\<close> returns no entries but ends with
  the \<open>SyntaxError\<close> that \<open>new RegExp\<close> throws and nothing catches.
\<close>

theorem find_semantics_counterexample:
  "replace_star ''('' = ''('' \<and>
   new_RegExp toy_library ''('' = None \<and>
   find_action toy_library today_a ''('' None [secret_entry, note_entry] = Inl SyntaxError"
proof -
  have r: "replace_star ''('' = ''(''"
    by (simp add: replace_star_def)
  have n: "new_RegExp toy_library ''('' = None"
    using toy_regex_paren by (simp only: r)
  have "find_action toy_library today_a ''('' None [secret_entry, note_entry] = Inl SyntaxError"
    using toy_regex_paren by (rule find_action_syntax_error)
  with r n show ?thesis
    by (intro conjI)
qed

text \<open>
  C5 (a date that is not recognised), as the code has it. \<open>parseSearchDate\<close> returns
  \<open>null\<close> exactly for a string that is neither one of the words for today or yesterday
  (compared in lower case) nor parsed by one of the two formats; \<open>find\<close> then searches
  with no date filter, as if \<open>--date\<close> had not been given, and reports no error.
\<close>

theorem unrecognized_date_unfiltered:
  "(parseSearchDate L today d = None \<longleftrightarrow>
      toLowerCase d \<notin> set todayTerms \<and> toLowerCase d \<notin> set yesterdayTerms \<and>
      parse_date L d ''yyyy-MM-dd'' = None \<and> parse_date L d ''dd.MM.yyyy'' = None) \<and>
   (parseSearchDate L today d = None \<longrightarrow>
      find_action L today query (Some d) es = find_action L today query None es)"
  using parseSearchDate_None [of L today d] find_action_unrecognized [of L today d query es]
  by blast

theorem unrecognized_date_unfiltered_witness:
  "parseSearchDate toy_library today_a ''tomorrow'' = None \<and>
   find_action toy_library today_a ''rea*'' (Some ''tomorrow'') [secret_entry, note_entry]
     = find_action toy_library today_a ''rea*'' None [secret_entry, note_entry]"
  using unrecognized_date_unfiltered [of toy_library today_a "''tomorrow''" "''rea*''"
      "[secret_entry, note_entry]"] toy_parse_samples(3)
  by blast

text \<open>
  The claim as stated fails: for the date \<open>tomorrow\<close> the search is not refused but
  returns every entry that matches the pattern, of any day.
\<close>

theorem unrecognized_date_counterexample:
  "parseSearchDate toy_library today_a ''tomorrow'' = None \<and>
   find_action toy_library today_a ''*'' (Some ''tomorrow'') [secret_entry, note_entry]
     = Inr [secret_entry, note_entry]"
proof -
  have "find_action toy_library today_a ''*'' (Some ''tomorrow'') [secret_entry, note_entry]
     = Inr [secret_entry, note_entry]"
    by (simp add: find_action_def toy_parse_samples toy_regex_star match_anywhere_star
        del: match_anywhere.simps match_here.simps)
  then show ?thesis
    by (simp add: toy_parse_samples)
qed

end
